theory Spec2Isabelle
  imports Complex_Main
begin

text \<open>
  A model of \<open>trivy_offline_scanner.py\<close>: the class \<open>TrivyOfflineScanner\<close>, which stages
  a vulnerability database with the container runtime, runs the scanner against images
  with that database, and summarises the structured result. Every method is a function
  from the state before to a result and the state after; what the methods call outside
  the file (processes, the JSON decoder, the file system, the runtime client) is a
  parameter.
\<close>

section \<open>Python values\<close>

text \<open>
  The scanner passes around what \<open>json.loads\<close> produces: \<open>None\<close>, booleans, integers,
  floats, strings, lists and dictionaries with string keys. A finite float is modelled by
  the real number it denotes, which is exact for the two things the code does with a
  number (truth value, equality as a dictionary key). A dictionary is an association
  list read with \<open>map_of\<close>.
\<close>

datatype pyval =
    PNone
  | PBool bool
  | PInt int
  | PFloat real
  | PStr string
  | PList "pyval list"
  | PDict "(string \<times> pyval) list"

text \<open>The exceptions that occur in the modelled code.\<close>

datatype pyexn =
    TypeError
  | AttributeError
  | KeyError
  | CalledProcessError "string list" int
  | JSONDecodeError string
  | OSError string
  | Raised string

text \<open>Truth value of an object, as \<open>if x\<close> and \<open>not x\<close> compute it.\<close>

fun py_truthy :: "pyval \<Rightarrow> bool" where
  "py_truthy PNone = False"
| "py_truthy (PBool b) = b"
| "py_truthy (PInt i) = (i \<noteq> 0)"
| "py_truthy (PFloat r) = (r \<noteq> 0)"
| "py_truthy (PStr s) = (s \<noteq> [])"
| "py_truthy (PList xs) = (xs \<noteq> [])"
| "py_truthy (PDict kvs) = (kvs \<noteq> [])"

text \<open>\<open>sub in s\<close> on two strings: \<open>sub\<close> occurs in \<open>s\<close> as a contiguous piece.\<close>

fun starts_with :: "string \<Rightarrow> string \<Rightarrow> bool" where
  "starts_with [] s = True"
| "starts_with (c # cs) [] = False"
| "starts_with (c # cs) (d # ds) = (c = d \<and> starts_with cs ds)"

fun is_substring :: "string \<Rightarrow> string \<Rightarrow> bool" where
  "is_substring sub [] = (sub = [])"
| "is_substring sub (d # ds) = (starts_with sub (d # ds) \<or> is_substring sub ds)"

text \<open>
  \<open>key in x\<close> for a string \<open>key\<close>: a key of a dictionary, an element of a list, a
  piece of a string; any other object is not a container and the test raises.
\<close>

fun py_contains :: "string \<Rightarrow> pyval \<Rightarrow> pyexn + bool" where
  "py_contains key (PDict kvs) = Inr (key \<in> set (map fst kvs))"
| "py_contains key (PList xs) = Inr (PStr key \<in> set xs)"
| "py_contains key (PStr s) = Inr (is_substring key s)"
| "py_contains key v = Inl TypeError"

text \<open>\<open>x[key]\<close> for a string \<open>key\<close>: only a dictionary can be indexed by a string.\<close>

fun py_getitem :: "pyval \<Rightarrow> string \<Rightarrow> pyexn + pyval" where
  "py_getitem (PDict kvs) key =
     (case map_of kvs key of None \<Rightarrow> Inl KeyError | Some v \<Rightarrow> Inr v)"
| "py_getitem v key = Inl TypeError"

text \<open>
  \<open>for y in x\<close>: the elements of a list, the keys of a dictionary, the characters of a
  string; any other object is not iterable.
\<close>

fun py_iter :: "pyval \<Rightarrow> pyexn + pyval list" where
  "py_iter (PList xs) = Inr xs"
| "py_iter (PDict kvs) = Inr (map (\<lambda>kv. PStr (fst kv)) kvs)"
| "py_iter (PStr s) = Inr (map (\<lambda>c. PStr [c]) s)"
| "py_iter v = Inl TypeError"

text \<open>
  Dictionary keys. Lists and dictionaries are unhashable; \<open>True\<close>, \<open>1\<close> and \<open>1.0\<close> are
  one and the same key.
\<close>

datatype pykey = KNone | KNum real | KStr string

fun py_key :: "pyval \<Rightarrow> pyexn + pykey" where
  "py_key PNone = Inr KNone"
| "py_key (PBool b) = Inr (KNum (if b then 1 else 0))"
| "py_key (PInt i) = Inr (KNum (of_int i))"
| "py_key (PFloat r) = Inr (KNum r)"
| "py_key (PStr s) = Inr (KStr s)"
| "py_key (PList xs) = Inl TypeError"
| "py_key (PDict kvs) = Inl TypeError"

section \<open>The summary of a scan result\<close>

type_synonym summary = "pykey \<rightharpoonup> int"

definition summary0 :: summary where
  "summary0 =
     [KStr ''CRITICAL'' \<mapsto> 0, KStr ''HIGH'' \<mapsto> 0, KStr ''MEDIUM'' \<mapsto> 0,
      KStr ''LOW'' \<mapsto> 0, KStr ''UNKNOWN'' \<mapsto> 0, KStr ''total'' \<mapsto> 0]"

text \<open>
  The body of the inner loop of \<open>get_vulnerability_summary\<close>:
  \<^verbatim>\<open>severity = vuln.get("Severity", "UNKNOWN")\<close>,
  \<^verbatim>\<open>summary[severity] = summary.get(severity, 0) + 1\<close>,
  \<^verbatim>\<open>summary["total"] += 1\<close>.
\<close>

definition count_vuln :: "summary \<Rightarrow> pyval \<Rightarrow> pyexn + summary" where
  "count_vuln summary vuln =
     (case vuln of
        PDict kvs \<Rightarrow>
          (let severity = (case map_of kvs ''Severity'' of
                             None \<Rightarrow> PStr ''UNKNOWN'' | Some v \<Rightarrow> v)
           in case py_key severity of
                Inl e \<Rightarrow> Inl e
              | Inr k \<Rightarrow>
                  (let summary1 =
                         summary(k \<mapsto> (case summary k of None \<Rightarrow> 0 | Some n \<Rightarrow> n) + 1)
                   in case summary1 (KStr ''total'') of
                        None \<Rightarrow> Inl KeyError
                      | Some t \<Rightarrow> Inr (summary1(KStr ''total'' \<mapsto> t + 1))))
      | _ \<Rightarrow> Inl AttributeError)"

text \<open>The inner loop, over the vulnerabilities of one result.\<close>

fun count_vulns :: "summary \<Rightarrow> pyval list \<Rightarrow> pyexn + summary" where
  "count_vulns summary [] = Inr summary"
| "count_vulns summary (vuln # vulns) =
     (case count_vuln summary vuln of
        Inl e \<Rightarrow> Inl e
      | Inr summary' \<Rightarrow> count_vulns summary' vulns)"

text \<open>
  The body of the outer loop:
  \<^verbatim>\<open>if "Vulnerabilities" in result and result["Vulnerabilities"]: for vuln in ...\<close>.
\<close>

definition count_result :: "summary \<Rightarrow> pyval \<Rightarrow> pyexn + summary" where
  "count_result summary result =
     (case py_contains ''Vulnerabilities'' result of
        Inl e \<Rightarrow> Inl e
      | Inr False \<Rightarrow> Inr summary
      | Inr True \<Rightarrow>
          (case py_getitem result ''Vulnerabilities'' of
             Inl e \<Rightarrow> Inl e
           | Inr vs \<Rightarrow>
               if py_truthy vs
               then (case py_iter vs of Inl e \<Rightarrow> Inl e | Inr vulns \<Rightarrow> count_vulns summary vulns)
               else Inr summary))"

fun count_results :: "summary \<Rightarrow> pyval list \<Rightarrow> pyexn + summary" where
  "count_results summary [] = Inr summary"
| "count_results summary (result # results) =
     (case count_result summary result of
        Inl e \<Rightarrow> Inl e
      | Inr summary' \<Rightarrow> count_results summary' results)"

definition get_vulnerability_summary :: "pyval \<Rightarrow> pyexn + summary" where
  "get_vulnerability_summary scan_results =
     (if \<not> py_truthy scan_results then Inr summary0
      else case py_contains ''Results'' scan_results of
             Inl e \<Rightarrow> Inl e
           | Inr False \<Rightarrow> Inr summary0
           | Inr True \<Rightarrow>
               (case py_getitem scan_results ''Results'' of
                  Inl e \<Rightarrow> Inl e
                | Inr rs \<Rightarrow>
                    (case py_iter rs of
                       Inl e \<Rightarrow> Inl e
                     | Inr results \<Rightarrow> count_results summary0 results)))"

section \<open>The scanner and the outside world\<close>

text \<open>
  The fields of \<open>TrivyOfflineScanner\<close>. The paths are kept as the strings that the
  f-strings of the source render; \<open>docker_client\<close> is \<open>None\<close> when the constructor
  could not reach the container runtime.
\<close>

record 'c scanner =
  db_path :: string
  cache_path :: string
  results_dir :: string
  docker_client :: "'c option"

text \<open>
  What is at the path of the database directory: nothing; a directory with its entries;
  or something that exists (\<open>exists()\<close> holds) but cannot be listed, so that
  \<open>iterdir()\<close> raises: a regular file, a directory the process may not read.
\<close>

datatype dir_state = Absent | Present "string list" | Unlistable pyexn

text \<open>
  The outside world, as far as the code looks at it: the database directory and
  everything else (the runtime daemon, the network, other files), which is opaque.
\<close>

record 'x world =
  db_dir :: dir_state
  outside :: 'x

datatype log_entry =
    LogInfo string
  | LogError string
  | LogErrorExn string pyexn

text \<open>
  The state threaded through every method: the world, the commands handed to
  \<open>subprocess.run\<close> so far, the images \<open>scan_image\<close> was entered with so far, and the
  records written to the logger. \<open>LogErrorExn p e\<close> stands for the f-string that
  appends the rendering of the exception \<open>e\<close> to the prefix \<open>p\<close>.
\<close>

record 'x state =
  world :: "'x world"
  calls :: "string list list"
  scans :: "string list"
  logger :: "log_entry list"

text \<open>A finished process: return code, standard output, standard error.\<close>

datatype completed = Completed int string string

text \<open>A local image as the runtime client reports it.\<close>

record image =
  image_id :: string
  image_tags :: "string list"
  image_attrs :: "(string \<times> pyval) list"

text \<open>
  What a command does to the database directory. The commands of this file are
  \<open>docker pull\<close> and \<open>docker run\<close> with the directory mounted into the container: they
  may write its entries (the runtime creates a missing mount source), they cannot
  remove the mount point.
\<close>

datatype dir_change = Untouched | Written "string list"

definition after_command :: "dir_change \<Rightarrow> dir_state \<Rightarrow> dir_state" where
  "after_command ch d =
     (case ch of
        Untouched \<Rightarrow> d
      | Written es \<Rightarrow> (case d of Unlistable e \<Rightarrow> Unlistable e | _ \<Rightarrow> Present es))"

text \<open>
  What the code calls but does not define. A command may raise or complete, changes the
  world outside and the database directory as above. \<open>rmtree_error\<close> tells whether
  \<open>shutil.rmtree\<close> fails, with the entries it leaves behind; \<open>mkdir_error\<close> tells
  whether \<open>mkdir(parents=True, exist_ok=True)\<close> fails.
\<close>

record ('x, 'c) env =
  subprocess_run :: "string list \<Rightarrow> 'x world \<Rightarrow> (pyexn + completed) \<times> 'x \<times> dir_change"
  json_loads :: "string \<Rightarrow> pyexn + pyval"
  path_join :: "string \<Rightarrow> string \<Rightarrow> string"
  write_text :: "string \<Rightarrow> string \<Rightarrow> 'x world \<Rightarrow> pyexn option \<times> 'x world"
  rmtree_error :: "'x world \<Rightarrow> (pyexn \<times> string list) option"
  mkdir_error :: "'x world \<Rightarrow> pyexn option"
  images_list :: "'c \<Rightarrow> 'x world \<Rightarrow> (pyexn + image list) \<times> 'x world"

definition log_add :: "log_entry \<Rightarrow> 'x state \<Rightarrow> 'x state" where
  "log_add entry s = s\<lparr>logger := logger s @ [entry]\<rparr>"

text \<open>The world a command leaves.\<close>

definition world_after :: "('x, 'c) env \<Rightarrow> string list \<Rightarrow> 'x world \<Rightarrow> 'x world" where
  "world_after E cmd w =
     (case subprocess_run E cmd w of
        (r, x, ch) \<Rightarrow> \<lparr>db_dir = after_command ch (db_dir w), outside = x\<rparr>)"

text \<open>\<open>subprocess.run(cmd, ...)\<close>: the command is recorded, the world moves on.\<close>

definition run_cmd ::
  "('x, 'c) env \<Rightarrow> string list \<Rightarrow> 'x state \<Rightarrow> (pyexn + completed) \<times> 'x state" where
  "run_cmd E cmd s =
     (fst (subprocess_run E cmd (world s)),
      s\<lparr>world := world_after E cmd (world s), calls := calls s @ [cmd]\<rparr>)"

text \<open>\<open>subprocess.run(cmd, check=True, ...)\<close>: a non-zero return code is raised.\<close>

definition run_checked ::
  "('x, 'c) env \<Rightarrow> string list \<Rightarrow> 'x state \<Rightarrow> pyexn option \<times> 'x state" where
  "run_checked E cmd s =
     (case run_cmd E cmd s of
        (Inl e, s1) \<Rightarrow> (Some e, s1)
      | (Inr (Completed returncode out err), s1) \<Rightarrow>
          if returncode \<noteq> 0 then (Some (CalledProcessError cmd returncode), s1)
          else (None, s1))"

section \<open>Staging the database\<close>

definition pull_cmd :: "string list" where
  "pull_cmd = [''docker'', ''pull'', ''aquasec/trivy-db:latest'']"

definition extract_cmd :: "'c scanner \<Rightarrow> string list" where
  "extract_cmd self =
     [''docker'', ''run'', ''--rm'',
      ''-v'', db_path self @ '':/output'',
      ''aquasec/trivy-db:latest'',
      ''sh'', ''-c'', ''cp -r /trivy-db/* /output/'']"

text \<open>
  The handler of \<open>setup_database\<close> catches \<open>CalledProcessError\<close> only; any other
  exception leaves the method.
\<close>

definition setup_failed :: "pyexn \<Rightarrow> 'x state \<Rightarrow> (pyexn + bool) \<times> 'x state" where
  "setup_failed e s =
     (case e of
        CalledProcessError cmd rc \<Rightarrow>
          (Inr False, log_add (LogErrorExn ''Failed to setup database: '' e) s)
      | _ \<Rightarrow> (Inl e, s))"

definition setup_database ::
  "('x, 'c) env \<Rightarrow> 'c scanner \<Rightarrow> 'x state \<Rightarrow> (pyexn + bool) \<times> 'x state" where
  "setup_database E self s0 =
     (let s1 = log_add (LogInfo ''Setting up Trivy database for offline use...'') s0;
          s2 = log_add (LogInfo ''Pulling trivy-db image...'') s1
      in case run_checked E pull_cmd s2 of
           (Some e, s3) \<Rightarrow> setup_failed e s3
         | (None, s3) \<Rightarrow>
             (let s4 = log_add (LogInfo ''Extracting database files...'') s3
              in case run_checked E (extract_cmd self) s4 of
                   (Some e, s5) \<Rightarrow> setup_failed e s5
                 | (None, s5) \<Rightarrow>
                     (Inr True, log_add (LogInfo ''Database setup complete!'') s5)))"

text \<open>
  \<open>shutil.rmtree(self.db_path)\<close>: the directory is gone, or the call raises and what it
  could not remove is still there.
\<close>

definition rmtree :: "('x, 'c) env \<Rightarrow> 'x world \<Rightarrow> pyexn option \<times> 'x world" where
  "rmtree E w =
     (case rmtree_error E w of
        None \<Rightarrow> (None, w\<lparr>db_dir := Absent\<rparr>)
      | Some (e, left) \<Rightarrow>
          (Some e, case db_dir w of Present es \<Rightarrow> w\<lparr>db_dir := Present left\<rparr> | _ \<Rightarrow> w))"

text \<open>
  \<open>self.db_path.mkdir(parents=True, exist_ok=True)\<close>: the directory is created when
  nothing is there, or the call raises and creates nothing.
\<close>

definition mkdir :: "('x, 'c) env \<Rightarrow> 'x world \<Rightarrow> pyexn option \<times> 'x world" where
  "mkdir E w =
     (case mkdir_error E w of
        Some e \<Rightarrow> (Some e, w)
      | None \<Rightarrow> (None, case db_dir w of Absent \<Rightarrow> w\<lparr>db_dir := Present []\<rparr> | _ \<Rightarrow> w))"

text \<open>The step \<^verbatim>\<open>if self.db_path.exists(): rmtree; mkdir\<close> of \<open>update_database\<close>.\<close>

definition clear_old_database ::
  "('x, 'c) env \<Rightarrow> 'x state \<Rightarrow> pyexn option \<times> 'x state" where
  "clear_old_database E s =
     (if db_dir (world s) \<noteq> Absent
      then (case rmtree E (world s) of
              (Some e, w) \<Rightarrow> (Some e, s\<lparr>world := w\<rparr>)
            | (None, w) \<Rightarrow>
                (case mkdir E w of (r, w') \<Rightarrow> (r, s\<lparr>world := w'\<rparr>)))
      else (None, s))"

text \<open>The handler of \<open>update_database\<close> catches every exception.\<close>

definition update_failed :: "pyexn \<Rightarrow> 'x state \<Rightarrow> (pyexn + bool) \<times> 'x state" where
  "update_failed e s =
     (Inr False, log_add (LogErrorExn ''Failed to update database: '' e) s)"

definition update_database ::
  "('x, 'c) env \<Rightarrow> 'c scanner \<Rightarrow> 'x state \<Rightarrow> (pyexn + bool) \<times> 'x state" where
  "update_database E self s0 =
     (let s1 = log_add (LogInfo ''Updating Trivy database...'') s0
      in case run_checked E pull_cmd s1 of
           (Some e, s2) \<Rightarrow> update_failed e s2
         | (None, s2) \<Rightarrow>
             (case clear_old_database E s2 of
                (Some e, s3) \<Rightarrow> update_failed e s3
              | (None, s3) \<Rightarrow>
                  (case setup_database E self s3 of
                     (Inl e, s4) \<Rightarrow> update_failed e s4
                   | (Inr ok, s4) \<Rightarrow> (Inr ok, s4))))"

section \<open>Scanning\<close>

text \<open>\<open>sep.join(xs)\<close>.\<close>

fun join :: "string \<Rightarrow> string list \<Rightarrow> string" where
  "join sep [] = []"
| "join sep [x] = x"
| "join sep (x # y # ys) = x @ sep @ join sep (y # ys)"

text \<open>
  The command that \<open>scan_image\<close> builds. \<open>if severity:\<close> holds for a list that is given
  and not empty.
\<close>

definition scan_cmd ::
  "'c scanner \<Rightarrow> string \<Rightarrow> string \<Rightarrow> string list option \<Rightarrow> string list option \<Rightarrow> string list"
  where
  "scan_cmd self image_ref format severity vuln_type =
     [''docker'', ''run'', ''--rm'',
      ''-v'', ''/var/run/docker.sock:/var/run/docker.sock:ro'',
      ''-v'', cache_path self @ '':/root/.cache/trivy'',
      ''-v'', db_path self @ '':/trivy-db:ro'',
      ''-e'', ''TRIVY_CACHE_DIR=/root/.cache/trivy'',
      ''-e'', ''TRIVY_DB_REPOSITORY=file:///trivy-db'',
      ''-e'', ''TRIVY_SKIP_UPDATE=true'',
      ''aquasec/trivy:latest'',
      ''image'',
      ''--format'', format]
     @ (case severity of
          None \<Rightarrow> []
        | Some sev \<Rightarrow> if sev \<noteq> [] then [''--severity'', join '','' sev] else [])
     @ (case vuln_type of
          None \<Rightarrow> []
        | Some vt \<Rightarrow> if vt \<noteq> [] then [''--vuln-type'', join '','' vt] else [])
     @ [image_ref]"

text \<open>
  The test \<^verbatim>\<open>not self.db_path.exists() or not any(self.db_path.iterdir())\<close>, which
  raises when the path exists and cannot be listed; and its negation.
\<close>

definition database_missing :: "'x world \<Rightarrow> pyexn + bool" where
  "database_missing w =
     (case db_dir w of
        Absent \<Rightarrow> Inr True
      | Present es \<Rightarrow> Inr (es = [])
      | Unlistable e \<Rightarrow> Inl e)"

definition database_present :: "'x world \<Rightarrow> bool" where
  "database_present w = (database_missing w = Inr False)"

text \<open>The step \<^verbatim>\<open>if output_file: ... f.write(result.stdout)\<close>.\<close>

definition save_output ::
  "('x, 'c) env \<Rightarrow> 'c scanner \<Rightarrow> string option \<Rightarrow> string \<Rightarrow> 'x state \<Rightarrow> pyexn option \<times> 'x state"
  where
  "save_output E self output_file out s =
     (case output_file of
        None \<Rightarrow> (None, s)
      | Some f \<Rightarrow>
          if f = [] then (None, s)
          else
            (let output_path = path_join E (results_dir self) f;
                 (r, w) = write_text E output_path out (world s)
             in case r of
                  Some e \<Rightarrow> (Some e, s\<lparr>world := w\<rparr>)
                | None \<Rightarrow>
                    (None, log_add (LogInfo (''Results saved to: '' @ output_path))
                             (s\<lparr>world := w\<rparr>))))"

text \<open>The body of the \<open>try\<close> block of \<open>scan_image\<close>; \<open>Inl\<close> is an exception raised in it.\<close>

definition scan_image_try ::
  "('x, 'c) env \<Rightarrow> 'c scanner \<Rightarrow> string \<Rightarrow> string \<Rightarrow> string list option \<Rightarrow> string option \<Rightarrow>
     string list option \<Rightarrow> 'x state \<Rightarrow> (pyexn + pyval) \<times> 'x state" where
  "scan_image_try E self image_ref format severity output_file vuln_type s =
     (let cmd = scan_cmd self image_ref format severity vuln_type
      in case run_cmd E cmd s of
           (Inl e, s1) \<Rightarrow> (Inl e, s1)
         | (Inr (Completed returncode out err), s1) \<Rightarrow>
             if returncode \<noteq> 0
             then (Inr PNone, log_add (LogError (''Scan failed: '' @ err)) s1)
             else
               (case save_output E self output_file out s1 of
                  (Some e, s2) \<Rightarrow> (Inl e, s2)
                | (None, s2) \<Rightarrow>
                    if format = ''json''
                    then (case json_loads E out of
                            Inl e \<Rightarrow> (Inl e, s2)
                          | Inr v \<Rightarrow> (Inr v, s2))
                    else (Inr (PStr out), s2)))"

text \<open>
  The test of the database comes before the \<open>try\<close>: an exception it raises leaves
  \<open>scan_image\<close>. Every exception of the block is caught and gives \<open>None\<close>.
\<close>

definition scan_image ::
  "('x, 'c) env \<Rightarrow> 'c scanner \<Rightarrow> string \<Rightarrow> string \<Rightarrow> string list option \<Rightarrow> string option \<Rightarrow>
     string list option \<Rightarrow> 'x state \<Rightarrow> (pyexn + pyval) \<times> 'x state" where
  "scan_image E self image_ref format severity output_file vuln_type s0 =
     (let s = s0\<lparr>scans := scans s0 @ [image_ref]\<rparr>
      in case database_missing (world s) of
           Inl e \<Rightarrow> (Inl e, s)
         | Inr True \<Rightarrow>
             (Inr PNone,
              log_add (LogError
                ''Trivy database not found. Please run setup_database() first.'') s)
         | Inr False \<Rightarrow>
             (case scan_image_try E self image_ref format severity output_file vuln_type s of
                (Inl e, s1) \<Rightarrow> (Inr PNone, log_add (LogErrorExn ''Scan failed: '' e) s1)
              | (Inr v, s1) \<Rightarrow> (Inr v, s1)))"

text \<open>The loop of \<open>scan_multiple_images\<close>, with the dictionary \<open>results\<close> as a map.\<close>

fun scan_loop ::
  "('x, 'c) env \<Rightarrow> 'c scanner \<Rightarrow> string list \<Rightarrow> string \<Rightarrow> string list option \<Rightarrow>
     (string \<rightharpoonup> pyval) \<Rightarrow> 'x state \<Rightarrow> (pyexn + (string \<rightharpoonup> pyval)) \<times> 'x state" where
  "scan_loop E self [] format severity results s = (Inr results, s)"
| "scan_loop E self (image_ref # images) format severity results s =
     (case scan_image E self image_ref format severity None None
             (log_add (LogInfo (''Scanning '' @ image_ref @ ''...'')) s) of
        (Inl e, s1) \<Rightarrow> (Inl e, s1)
      | (Inr result, s1) \<Rightarrow>
          scan_loop E self images format severity (results(image_ref \<mapsto> result)) s1)"

definition scan_multiple_images ::
  "('x, 'c) env \<Rightarrow> 'c scanner \<Rightarrow> string list \<Rightarrow> string \<Rightarrow> string list option \<Rightarrow>
     'x state \<Rightarrow> (pyexn + (string \<rightharpoonup> pyval)) \<times> 'x state" where
  "scan_multiple_images E self images format severity s =
     scan_loop E self images format severity Map.empty s"

section \<open>Listing the local images\<close>

text \<open>The inner loop of \<open>list_local_images\<close>: one dictionary per tag.\<close>

fun tag_records :: "image \<Rightarrow> string list \<Rightarrow> pyval list \<Rightarrow> pyexn + pyval list" where
  "tag_records img [] image_list = Inr image_list"
| "tag_records img (tag # tags) image_list =
     (case map_of (image_attrs img) ''Size'' of
        None \<Rightarrow> Inl KeyError
      | Some size_attr \<Rightarrow>
          (case map_of (image_attrs img) ''Created'' of
             None \<Rightarrow> Inl KeyError
           | Some created \<Rightarrow>
               tag_records img tags
                 (image_list @
                  [PDict [(''id'', PStr (take 12 (image_id img))), (''tag'', PStr tag),
                          (''size'', size_attr), (''created'', created)]])))"

fun image_records :: "image list \<Rightarrow> pyval list \<Rightarrow> pyexn + pyval list" where
  "image_records [] image_list = Inr image_list"
| "image_records (img # images) image_list =
     (case tag_records img
             (if image_tags img \<noteq> [] then image_tags img else [''<none>''])
             image_list of
        Inl e \<Rightarrow> Inl e
      | Inr image_list' \<Rightarrow> image_records images image_list')"

definition list_local_images ::
  "('x, 'c) env \<Rightarrow> 'c scanner \<Rightarrow> 'x state \<Rightarrow> (pyexn + pyval list) \<times> 'x state" where
  "list_local_images E self s =
     (case docker_client self of
        None \<Rightarrow> (Inr [], log_add (LogError ''Docker client not available'') s)
      | Some client \<Rightarrow>
          (let (r, w) = images_list E client (world s);
               s1 = s\<lparr>world := w\<rparr>
           in case (case r of Inl e \<Rightarrow> Inl e | Inr images \<Rightarrow> image_records images []) of
                Inl e \<Rightarrow> (Inr [], log_add (LogErrorExn ''Failed to list images: '' e) s1)
              | Inr image_list \<Rightarrow> (Inr image_list, s1)))"

section \<open>Notions used in the properties\<close>

text \<open>The five severity labels, and the six keys a fresh summary has.\<close>

definition severity_labels :: "string list" where
  "severity_labels = [''CRITICAL'', ''HIGH'', ''MEDIUM'', ''LOW'', ''UNKNOWN'']"

definition summary_keys :: "string list" where
  "summary_keys = severity_labels @ [''total'']"

text \<open>
  The shape of a structured scan result: a dictionary whose \<open>Results\<close>, when present, is
  a list of dictionaries (one per target), each with \<open>Vulnerabilities\<close> missing, null or
  a list of entries that satisfy \<open>P\<close>.
\<close>

definition result_shape :: "(pyval \<Rightarrow> bool) \<Rightarrow> pyval \<Rightarrow> bool" where
  "result_shape P r =
     (case r of
        PDict kvs \<Rightarrow>
          (case map_of kvs ''Vulnerabilities'' of
             None \<Rightarrow> True
           | Some PNone \<Rightarrow> True
           | Some (PList vs) \<Rightarrow> list_all P vs
           | Some _ \<Rightarrow> False)
      | _ \<Rightarrow> False)"

definition scan_shape :: "(pyval \<Rightarrow> bool) \<Rightarrow> pyval \<Rightarrow> bool" where
  "scan_shape P v =
     (case v of
        PDict kvs \<Rightarrow>
          (case map_of kvs ''Results'' of
             None \<Rightarrow> True
           | Some (PList rs) \<Rightarrow> list_all (result_shape P) rs
           | Some _ \<Rightarrow> False)
      | _ \<Rightarrow> False)"

text \<open>The vulnerability entries of one target, and of all targets in order.\<close>

definition result_vulnerabilities :: "pyval \<Rightarrow> pyval list" where
  "result_vulnerabilities r =
     (case r of
        PDict kvs \<Rightarrow>
          (case map_of kvs ''Vulnerabilities'' of Some (PList vs) \<Rightarrow> vs | _ \<Rightarrow> [])
      | _ \<Rightarrow> [])"

definition vulnerability_entries :: "pyval \<Rightarrow> pyval list" where
  "vulnerability_entries v =
     (case v of
        PDict kvs \<Rightarrow>
          (case map_of kvs ''Results'' of
             Some (PList rs) \<Rightarrow> concat (map result_vulnerabilities rs)
           | _ \<Rightarrow> [])
      | _ \<Rightarrow> [])"

text \<open>An entry whose severity is one of the five labels, or missing.\<close>

definition wf_vuln :: "pyval \<Rightarrow> bool" where
  "wf_vuln vuln =
     (case vuln of
        PDict kvs \<Rightarrow>
          (case map_of kvs ''Severity'' of
             None \<Rightarrow> True
           | Some (PStr l) \<Rightarrow> l \<in> set severity_labels
           | Some _ \<Rightarrow> False)
      | _ \<Rightarrow> False)"

definition wf_scan_result :: "pyval \<Rightarrow> bool" where
  "wf_scan_result v = scan_shape wf_vuln v"

text \<open>An entry whose severity is any string but \<open>total\<close>, or missing.\<close>

definition labelled_vuln :: "pyval \<Rightarrow> bool" where
  "labelled_vuln vuln =
     (case vuln of
        PDict kvs \<Rightarrow>
          (case map_of kvs ''Severity'' of
             None \<Rightarrow> True
           | Some (PStr l) \<Rightarrow> l \<noteq> ''total''
           | Some _ \<Rightarrow> False)
      | _ \<Rightarrow> False)"

text \<open>
  The severity an entry with the fields \<open>kvs\<close> reports, as a value; \<open>UNKNOWN\<close> stands in
  for a missing one.
\<close>

definition reported_severity :: "(string \<times> pyval) list \<Rightarrow> pyval" where
  "reported_severity kvs =
     (case map_of kvs ''Severity'' of None \<Rightarrow> PStr ''UNKNOWN'' | Some v \<Rightarrow> v)"

text \<open>The same as a label, for the entries that report a string or nothing.\<close>

definition severity_label :: "pyval \<Rightarrow> string" where
  "severity_label vuln =
     (case vuln of
        PDict kvs \<Rightarrow>
          (case map_of kvs ''Severity'' of Some (PStr l) \<Rightarrow> l | _ \<Rightarrow> ''UNKNOWN'')
      | _ \<Rightarrow> ''UNKNOWN'')"

definition entries_with :: "string \<Rightarrow> pyval list \<Rightarrow> pyval list" where
  "entries_with l es = filter (\<lambda>e. severity_label e = l) es"

text \<open>
  An input with no result list to walk: \<open>None\<close>, an empty or zero value, or a container
  in which \<open>Results\<close> does not occur.
\<close>

fun no_result_list :: "pyval \<Rightarrow> bool" where
  "no_result_list PNone = True"
| "no_result_list (PBool b) = (\<not> b)"
| "no_result_list (PInt i) = (i = 0)"
| "no_result_list (PFloat r) = (r = 0)"
| "no_result_list (PStr t) = (\<not> is_substring ''Results'' t)"
| "no_result_list (PList xs) = (PStr ''Results'' \<notin> set xs)"
| "no_result_list (PDict kvs) = (''Results'' \<notin> set (map fst kvs))"

text \<open>The count a summary, if there is one, holds under a label.\<close>

definition count_under :: "pyexn + summary \<Rightarrow> string \<Rightarrow> int option" where
  "count_under r l = (case r of Inl e \<Rightarrow> None | Inr summary \<Rightarrow> summary (KStr l))"

text \<open>The pull of the distribution image fails: it cannot be run, or returns non-zero.\<close>

definition pull_fails :: "('x, 'c) env \<Rightarrow> 'x world \<Rightarrow> bool" where
  "pull_fails E w =
     (case fst (subprocess_run E pull_cmd w) of
        Inl e \<Rightarrow> True
      | Inr (Completed returncode out err) \<Rightarrow> returncode \<noteq> 0)"

text \<open>
  The pull succeeds, the deletion succeeds, and creating the directory again fails.
\<close>

definition recreation_fails :: "('x, 'c) env \<Rightarrow> 'x world \<Rightarrow> bool" where
  "recreation_fails E w =
     (\<not> pull_fails E w \<and>
      rmtree_error E (world_after E pull_cmd w) = None \<and>
      mkdir_error E ((world_after E pull_cmd w)\<lparr>db_dir := Absent\<rparr>) \<noteq> None)"

section \<open>Loop invariants of the summary\<close>

text \<open>
  After the entries \<open>es\<close>: the five buckets add up to \<open>total\<close> and to the number of
  entries.
\<close>

definition tallies :: "summary \<Rightarrow> pyval list \<Rightarrow> bool" where
  "tallies s es =
     (\<exists>c h m l u. s (KStr ''CRITICAL'') = Some c \<and> s (KStr ''HIGH'') = Some h \<and>
        s (KStr ''MEDIUM'') = Some m \<and> s (KStr ''LOW'') = Some l \<and>
        s (KStr ''UNKNOWN'') = Some u \<and> s (KStr ''total'') = Some (c + h + m + l + u) \<and>
        c + h + m + l + u = int (length es))"

text \<open>The six keys of a fresh summary are bound to numbers that are not negative.\<close>

definition has_buckets :: "summary \<Rightarrow> bool" where
  "has_buckets s = (\<forall>k \<in> set summary_keys. \<exists>n. s (KStr k) = Some n \<and> 0 \<le> n)"

text \<open>
  After the entries \<open>es\<close>: \<open>total\<close> is their number, and every other label is bound to
  the number of entries reporting it; a label outside the five is a key only once an
  entry has reported it.
\<close>

definition counted :: "summary \<Rightarrow> pyval list \<Rightarrow> bool" where
  "counted s es =
     (s (KStr ''total'') = Some (int (length es)) \<and>
      (\<forall>l. l \<noteq> ''total'' \<longrightarrow>
         s (KStr l) =
           (if l \<in> set severity_labels \<or> l \<in> severity_label ` set es
            then Some (int (length (entries_with l es))) else None)))"

section \<open>Sample data\<close>

text \<open>One target with three findings, two critical and one low.\<close>

definition sample_scan :: pyval where
  "sample_scan =
     PDict [(''SchemaVersion'', PInt 2),
            (''ArtifactName'', PStr ''nginx:latest''),
            (''Results'',
             PList [PDict [(''Target'', PStr ''nginx:latest (debian 12.5)''),
                           (''Vulnerabilities'',
                            PList [PDict [(''VulnerabilityID'', PStr ''CVE-2023-0001''),
                                          (''Severity'', PStr ''CRITICAL'')],
                                   PDict [(''VulnerabilityID'', PStr ''CVE-2023-0002''),
                                          (''Severity'', PStr ''CRITICAL'')],
                                   PDict [(''VulnerabilityID'', PStr ''CVE-2023-0003''),
                                          (''Severity'', PStr ''LOW'')]])]])]"

text \<open>One finding with a severity outside the five labels, one without any.\<close>

definition odd_scan :: pyval where
  "odd_scan =
     PDict [(''Results'',
             PList [PDict [(''Target'', PStr ''app.jar''),
                           (''Vulnerabilities'',
                            PList [PDict [(''VulnerabilityID'', PStr ''GHSA-0001''),
                                          (''Severity'', PStr ''NEGLIGIBLE'')],
                                   PDict [(''VulnerabilityID'', PStr ''GHSA-0002'')]])]])]"

text \<open>One finding whose severity is the word \<open>total\<close>.\<close>

definition colliding_scan :: pyval where
  "colliding_scan =
     PDict [(''Results'',
             PList [PDict [(''Target'', PStr ''app.jar''),
                           (''Vulnerabilities'',
                            PList [PDict [(''VulnerabilityID'', PStr ''GHSA-0003''),
                                          (''Severity'', PStr ''total'')]])]])]"

definition sample_scanner :: "unit scanner" where
  "sample_scanner =
     \<lparr>db_path = ''/opt/scanner/trivy-db'', cache_path = ''/opt/scanner/trivy-cache'',
      results_dir = ''/opt/scanner/scan-results'', docker_client = Some ()\<rparr>"

definition offline_scanner :: "unit scanner" where
  "offline_scanner = sample_scanner\<lparr>docker_client := None\<rparr>"

definition state_with :: "dir_state \<Rightarrow> unit state" where
  "state_with d =
     \<lparr>world = \<lparr>db_dir = d, outside = ()\<rparr>, calls = [], scans = [], logger = []\<rparr>"

definition sample_loads :: "string \<Rightarrow> pyexn + pyval" where
  "sample_loads t =
     (if t = ''[]'' then Inr (PList [])
      else if t = ''null'' then Inr PNone
      else Inl (JSONDecodeError ''Expecting value''))"

text \<open>An environment in which every command ends the same way and changes nothing.\<close>

definition fixed_env :: "pyexn + completed \<Rightarrow> (unit, unit) env" where
  "fixed_env r =
     \<lparr>subprocess_run = (\<lambda>cmd w. (r, (), Untouched)),
      json_loads = sample_loads,
      path_join = (\<lambda>d f. d @ ''/'' @ f),
      write_text = (\<lambda>p t w. (None, w)),
      rmtree_error = (\<lambda>w. None),
      mkdir_error = (\<lambda>w. None),
      images_list = (\<lambda>c w. (Inl (Raised ''connection refused''), w))\<rparr>"

text \<open>An environment in which the extraction command copies two files into the directory.\<close>

definition staging_env :: "(unit, unit) env" where
  "staging_env =
     (fixed_env (Inr (Completed 0 [] [])))
       \<lparr>subprocess_run :=
          (\<lambda>cmd w. (Inr (Completed 0 [] []), (),
                     if cmd = pull_cmd then Untouched
                     else Written [''trivy.db'', ''metadata.json'']))\<rparr>"

text \<open>
  An environment in which every command succeeds and the directory, once deleted,
  cannot be created again.
\<close>

definition no_mkdir_env :: "(unit, unit) env" where
  "no_mkdir_env =
     (fixed_env (Inr (Completed 0 [] [])))
       \<lparr>mkdir_error := (\<lambda>w. Some (OSError ''Permission denied''))\<rparr>"

section \<open>Properties of the summary: an invariant carried over the entries walked\<close>

text \<open>
  If the loop body keeps \<open>I\<close> for every entry satisfying \<open>P\<close>, the loops and the whole
  function keep it on an input of the shape \<open>scan_shape P\<close>, and do not raise.
\<close>

lemma count_vulns_invariant:
  assumes step: "\<And>s es v. I s es \<Longrightarrow> P v \<Longrightarrow> \<exists>s'. count_vuln s v = Inr s' \<and> I s' (es @ [v])"
  shows "I s es \<Longrightarrow> list_all P vs \<Longrightarrow> \<exists>s'. count_vulns s vs = Inr s' \<and> I s' (es @ vs)"
proof (induction vs arbitrary: s es)
  case Nil
  then show ?case by simp
next
  case (Cons v vs)
  from Cons.prems have "P v" and rest: "list_all P vs" by simp_all
  from step [OF Cons.prems(1) \<open>P v\<close>] obtain s1
    where s1: "count_vuln s v = Inr s1" "I s1 (es @ [v])" by blast
  from Cons.IH [OF s1(2) rest] obtain s2
    where "count_vulns s1 vs = Inr s2" "I s2 ((es @ [v]) @ vs)" by blast
  with s1(1) show ?case by simp
qed

lemma count_result_invariant:
  assumes step: "\<And>s es v. I s es \<Longrightarrow> P v \<Longrightarrow> \<exists>s'. count_vuln s v = Inr s' \<and> I s' (es @ [v])"
    and inv: "I s es" and shape: "result_shape P r"
  shows "\<exists>s'. count_result s r = Inr s' \<and> I s' (es @ result_vulnerabilities r)"
proof -
  from shape obtain kvs where r: "r = PDict kvs"
    by (auto simp: result_shape_def split: pyval.splits)
  show ?thesis
  proof (cases "map_of kvs ''Vulnerabilities''")
    case None
    then have "''Vulnerabilities'' \<notin> fst ` set kvs"
      by (simp add: map_of_eq_None_iff)
    with None r inv show ?thesis
      by (simp add: count_result_def result_vulnerabilities_def)
  next
    case (Some x)
    then have mem: "''Vulnerabilities'' \<in> fst ` set kvs"
      by (metis map_of_eq_None_iff option.distinct(1))
    from shape r Some consider (null) "x = PNone" | (list) vs where "x = PList vs" "list_all P vs"
      by (auto simp: result_shape_def split: pyval.splits)
    then show ?thesis
    proof cases
      case null
      with Some mem r inv show ?thesis
        by (simp add: count_result_def result_vulnerabilities_def)
    next
      case list
      from count_vulns_invariant [where I = I and P = P, OF step inv list(2)]
      obtain s' where "count_vulns s vs = Inr s'" "I s' (es @ vs)" by blast
      with Some mem r inv list(1) show ?thesis
        by (cases vs) (simp_all add: count_result_def result_vulnerabilities_def)
    qed
  qed
qed

lemma count_results_invariant:
  assumes step: "\<And>s es v. I s es \<Longrightarrow> P v \<Longrightarrow> \<exists>s'. count_vuln s v = Inr s' \<and> I s' (es @ [v])"
  shows "I s es \<Longrightarrow> list_all (result_shape P) rs \<Longrightarrow>
    \<exists>s'. count_results s rs = Inr s' \<and> I s' (es @ concat (map result_vulnerabilities rs))"
proof (induction rs arbitrary: s es)
  case Nil
  then show ?case by simp
next
  case (Cons r rs)
  from Cons.prems have shape: "result_shape P r" and rest: "list_all (result_shape P) rs"
    by simp_all
  from count_result_invariant [where I = I and P = P, OF step Cons.prems(1) shape]
  obtain s1 where s1: "count_result s r = Inr s1" "I s1 (es @ result_vulnerabilities r)"
    by blast
  from Cons.IH [OF s1(2) rest] obtain s2 where
    "count_results s1 rs = Inr s2"
    "I s2 ((es @ result_vulnerabilities r) @ concat (map result_vulnerabilities rs))"
    by blast
  with s1(1) show ?case by simp
qed

lemma summary_invariant:
  assumes step: "\<And>s es v. I s es \<Longrightarrow> P v \<Longrightarrow> \<exists>s'. count_vuln s v = Inr s' \<and> I s' (es @ [v])"
    and init: "I summary0 []" and shape: "scan_shape P v"
  shows "\<exists>s. get_vulnerability_summary v = Inr s \<and> I s (vulnerability_entries v)"
proof -
  from shape obtain kvs where v: "v = PDict kvs"
    by (auto simp: scan_shape_def split: pyval.splits)
  show ?thesis
  proof (cases "map_of kvs ''Results''")
    case None
    then have "''Results'' \<notin> fst ` set kvs"
      by (simp add: map_of_eq_None_iff)
    with None v init show ?thesis
      by (simp add: get_vulnerability_summary_def vulnerability_entries_def)
  next
    case (Some x)
    then have mem: "''Results'' \<in> fst ` set kvs"
      by (metis map_of_eq_None_iff option.distinct(1))
    then have ne: "kvs \<noteq> []" by auto
    from shape v Some obtain rs where x: "x = PList rs" and rs: "list_all (result_shape P) rs"
      by (auto simp: scan_shape_def split: pyval.splits)
    from count_results_invariant [where I = I and P = P, OF step init rs]
    obtain s where "count_results summary0 rs = Inr s"
      "I s ([] @ concat (map result_vulnerabilities rs))" by blast
    with Some mem ne v x show ?thesis
      by (simp add: get_vulnerability_summary_def vulnerability_entries_def)
  qed
qed

section \<open>Properties of the summary on well-formed results\<close>

lemma tallies_start: "tallies summary0 []"
  by (simp add: tallies_def summary0_def)

lemma count_vuln_tallies:
  assumes "tallies s es" "wf_vuln v"
  shows "\<exists>s'. count_vuln s v = Inr s' \<and> tallies s' (es @ [v])"
proof -
  from assms(2) obtain kvs where v: "v = PDict kvs"
    by (auto simp: wf_vuln_def split: pyval.splits)
  from assms(1) obtain c h m l u where b:
    "s (KStr ''CRITICAL'') = Some c" "s (KStr ''HIGH'') = Some h"
    "s (KStr ''MEDIUM'') = Some m" "s (KStr ''LOW'') = Some l"
    "s (KStr ''UNKNOWN'') = Some u" "s (KStr ''total'') = Some (c + h + m + l + u)"
    "c + h + m + l + u = int (length es)"
    unfolding tallies_def by blast
  from assms(2) v consider
      (absent) "map_of kvs ''Severity'' = None"
    | (label) lab where "map_of kvs ''Severity'' = Some (PStr lab)" "lab \<in> set severity_labels"
    by (auto simp: wf_vuln_def split: option.splits pyval.splits)
  then show ?thesis
  proof cases
    case absent
    then show ?thesis using b v
      by (simp add: count_vuln_def tallies_def)
  next
    case label
    from label(2) have "lab = ''CRITICAL'' \<or> lab = ''HIGH'' \<or> lab = ''MEDIUM'' \<or>
        lab = ''LOW'' \<or> lab = ''UNKNOWN''"
      by (simp add: severity_labels_def)
    then show ?thesis using b v label(1)
      by (elim disjE) (simp_all add: count_vuln_def tallies_def)
  qed
qed

text \<open>
  C3. On a well-formed structured scan result (a dictionary whose \<open>Results\<close>, when
  present, is a list of targets, each with \<open>Vulnerabilities\<close> missing, null or a list
  of entries whose severity is one of the five labels or missing),
  \<open>get_vulnerability_summary\<close> returns a summary whose \<open>total\<close> is the sum of the five
  severity buckets and the number of vulnerability entries across all targets.
\<close>

theorem summary_total_sum_count:
  assumes "wf_scan_result v"
  shows "\<exists>c h m l u.
           count_under (get_vulnerability_summary v) ''CRITICAL'' = Some c \<and>
           count_under (get_vulnerability_summary v) ''HIGH'' = Some h \<and>
           count_under (get_vulnerability_summary v) ''MEDIUM'' = Some m \<and>
           count_under (get_vulnerability_summary v) ''LOW'' = Some l \<and>
           count_under (get_vulnerability_summary v) ''UNKNOWN'' = Some u \<and>
           count_under (get_vulnerability_summary v) ''total'' = Some (c + h + m + l + u) \<and>
           c + h + m + l + u = int (length (vulnerability_entries v))"
proof -
  from assms have "scan_shape wf_vuln v" by (simp add: wf_scan_result_def)
  from summary_invariant [where I = tallies and P = wf_vuln, OF count_vuln_tallies tallies_start this]
  obtain s where s: "get_vulnerability_summary v = Inr s" "tallies s (vulnerability_entries v)"
    by blast
  from s(2) show ?thesis
    unfolding tallies_def s(1) count_under_def by simp
qed

theorem summary_total_sum_count_witness:
  "wf_scan_result sample_scan \<and>
   count_under (get_vulnerability_summary sample_scan) ''CRITICAL'' = Some 2 \<and>
   count_under (get_vulnerability_summary sample_scan) ''HIGH'' = Some 0 \<and>
   count_under (get_vulnerability_summary sample_scan) ''MEDIUM'' = Some 0 \<and>
   count_under (get_vulnerability_summary sample_scan) ''LOW'' = Some 1 \<and>
   count_under (get_vulnerability_summary sample_scan) ''UNKNOWN'' = Some 0 \<and>
   count_under (get_vulnerability_summary sample_scan) ''total'' = Some 3 \<and>
   length (vulnerability_entries sample_scan) = 3"
proof -
  have wf: "wf_scan_result sample_scan"
    by (simp add: wf_scan_result_def scan_shape_def result_shape_def wf_vuln_def
        sample_scan_def severity_labels_def)
  have n: "length (vulnerability_entries sample_scan) = 3"
    by (simp add: vulnerability_entries_def result_vulnerabilities_def sample_scan_def)
  have c: "count_under (get_vulnerability_summary sample_scan) ''CRITICAL'' = Some 2"
    by (simp add: count_under_def get_vulnerability_summary_def count_result_def
        count_vuln_def summary0_def sample_scan_def)
  have l: "count_under (get_vulnerability_summary sample_scan) ''LOW'' = Some 1"
    by (simp add: count_under_def get_vulnerability_summary_def count_result_def
        count_vuln_def summary0_def sample_scan_def)
  have h: "count_under (get_vulnerability_summary sample_scan) ''HIGH'' = Some 0"
    by (simp add: count_under_def get_vulnerability_summary_def count_result_def
        count_vuln_def summary0_def sample_scan_def)
  have m: "count_under (get_vulnerability_summary sample_scan) ''MEDIUM'' = Some 0"
    by (simp add: count_under_def get_vulnerability_summary_def count_result_def
        count_vuln_def summary0_def sample_scan_def)
  have u: "count_under (get_vulnerability_summary sample_scan) ''UNKNOWN'' = Some 0"
    by (simp add: count_under_def get_vulnerability_summary_def count_result_def
        count_vuln_def summary0_def sample_scan_def)
  from summary_total_sum_count [OF wf] c l h m u n
  have "count_under (get_vulnerability_summary sample_scan) ''total'' = Some 3"
    by auto
  with wf n c l h m u show ?thesis by simp
qed

section \<open>Properties of the summary, bucket by bucket\<close>

lemma counted_start: "counted summary0 []"
  by (simp add: counted_def summary0_def severity_labels_def entries_with_def)

lemma entries_with_none:
  "l \<notin> severity_label ` set es \<Longrightarrow> entries_with l es = []"
  by (auto simp: entries_with_def filter_empty_conv)

lemma count_vuln_counted:
  assumes "counted s es" "labelled_vuln v"
  shows "\<exists>s'. count_vuln s v = Inr s' \<and> counted s' (es @ [v])"
proof -
  from assms(2) obtain kvs where v: "v = PDict kvs"
    by (cases v) (simp_all add: labelled_vuln_def)
  define sev where
    "sev = (case map_of kvs ''Severity'' of None \<Rightarrow> PStr ''UNKNOWN'' | Some x \<Rightarrow> x)"
  define l0 where "l0 = severity_label v"
  from assms(2) have sev: "sev = PStr l0" and l0: "l0 \<noteq> ''total''"
    unfolding sev_def l0_def v
    by (auto simp: labelled_vuln_def severity_label_def split: option.splits pyval.splits)
  from assms(1) have tot: "s (KStr ''total'') = Some (int (length es))"
    and bucket: "\<And>l. l \<noteq> ''total'' \<Longrightarrow> s (KStr l) =
           (if l \<in> set severity_labels \<or> l \<in> severity_label ` set es
            then Some (int (length (entries_with l es))) else None)"
    by (simp_all add: counted_def)
  have old: "(case s (KStr l0) of None \<Rightarrow> 0 | Some n \<Rightarrow> n) = int (length (entries_with l0 es))"
    using bucket [OF l0] by (simp add: entries_with_none)
  define s' where
    "s' = s(KStr l0 \<mapsto> int (length (entries_with l0 es)) + 1,
            KStr ''total'' \<mapsto> int (length es) + 1)"
  from sev have sev':
    "(case map_of kvs ''Severity'' of None \<Rightarrow> PStr ''UNKNOWN'' | Some x \<Rightarrow> x) = PStr l0"
    by (simp add: sev_def)
  have run: "count_vuln s v = Inr s'"
    using l0 tot old by (simp add: v count_vuln_def sev' s'_def Let_def)
  have "counted s' (es @ [v])"
    unfolding counted_def
  proof (intro conjI allI impI)
    show "s' (KStr ''total'') = Some (int (length (es @ [v])))"
      by (simp add: s'_def)
  next
    fix l :: string
    assume l: "l \<noteq> ''total''"
    show "s' (KStr l) =
        (if l \<in> set severity_labels \<or> l \<in> severity_label ` set (es @ [v])
         then Some (int (length (entries_with l (es @ [v])))) else None)"
    proof (cases "l = l0")
      case True
      then show ?thesis using l
        by (simp add: s'_def l0_def entries_with_def)
    next
      case False
      then show ?thesis using l bucket [OF l]
        by (auto simp: s'_def l0_def entries_with_def)
    qed
  qed
  with run show ?thesis by blast
qed

text \<open>
  A consequence for a whole scan in which every entry reports a string other than
  \<open>total\<close>, or nothing: in the end \<open>total\<close> is the number of entries and every label is
  bound to the number of entries reporting it.
\<close>

lemma summary_counts_by_label:
  assumes "scan_shape labelled_vuln v"
  shows "count_under (get_vulnerability_summary v) ''total'' =
           Some (int (length (vulnerability_entries v))) \<and>
         (\<forall>l. l \<noteq> ''total'' \<longrightarrow>
            count_under (get_vulnerability_summary v) l =
              (if l \<in> set severity_labels \<or> l \<in> severity_label ` set (vulnerability_entries v)
               then Some (int (length (entries_with l (vulnerability_entries v))))
               else None))"
proof -
  from summary_invariant [where I = counted and P = labelled_vuln,
      OF count_vuln_counted counted_start assms]
  obtain s where s: "get_vulnerability_summary v = Inr s" "counted s (vulnerability_entries v)"
    by blast
  from s(2) show ?thesis
    unfolding counted_def s(1) count_under_def by simp
qed

text \<open>
  C5 (as amended). \<open>count_vuln\<close> is what \<open>get_vulnerability_summary\<close> does with one
  vulnerability entry, whatever the other entries are, on a summary that has the key
  \<open>total\<close> (as the summaries of the loops all have, \<open>total\<close> being a key from the start
  and no key ever being removed). For every entry whose severity
  can be a dictionary key and is not the word \<open>total\<close>, the one count incremented is
  the bucket keyed by the severity the entry reports, which starts from zero when the
  summary has no such key yet: a severity outside the five labels (another string,
  null, a number) gets a bucket of its own and is not counted under \<open>UNKNOWN\<close>. An
  entry without severity is counted under \<open>UNKNOWN\<close>, as is one that reports
  \<open>UNKNOWN\<close>. \<open>total\<close> is incremented exactly once, and no other count changes.
\<close>

theorem count_vuln_bucket:
  assumes "summary (KStr ''total'') = Some t"
    and "py_key (reported_severity kvs) = Inr k"
    and "k \<noteq> KStr ''total''"
  shows "\<exists>summary'.
           count_vuln summary (PDict kvs) = Inr summary' \<and>
           summary' k = Some ((case summary k of None \<Rightarrow> 0 | Some n \<Rightarrow> n) + 1) \<and>
           summary' (KStr ''total'') = Some (t + 1) \<and>
           (\<forall>k'. k' \<noteq> k \<and> k' \<noteq> KStr ''total'' \<longrightarrow> summary' k' = summary k') \<and>
           (map_of kvs ''Severity'' = None \<longrightarrow> k = KStr ''UNKNOWN'') \<and>
           (\<forall>l. map_of kvs ''Severity'' = Some (PStr l) \<longrightarrow> k = KStr l) \<and>
           (map_of kvs ''Severity'' = Some PNone \<longrightarrow> k = KNone) \<and>
           (\<forall>i. map_of kvs ''Severity'' = Some (PInt i) \<longrightarrow> k = KNum (of_int i))"
proof -
  let ?s1 = "summary(k \<mapsto> (case summary k of None \<Rightarrow> 0 | Some n \<Rightarrow> n) + 1)"
  from assms(2) have key:
    "py_key (case map_of kvs ''Severity'' of None \<Rightarrow> PStr ''UNKNOWN'' | Some v \<Rightarrow> v) = Inr k"
    by (simp add: reported_severity_def)
  from assms(1,3) have "?s1 (KStr ''total'') = Some t" by auto
  with key have run: "count_vuln summary (PDict kvs) = Inr (?s1(KStr ''total'' \<mapsto> t + 1))"
    by (simp add: count_vuln_def Let_def)
  have bucket: "(?s1(KStr ''total'' \<mapsto> t + 1)) k =
      Some ((case summary k of None \<Rightarrow> 0 | Some n \<Rightarrow> n) + 1)"
    using assms(3) by simp
  have total: "(?s1(KStr ''total'' \<mapsto> t + 1)) (KStr ''total'') = Some (t + 1)"
    by simp
  have others: "\<forall>k'. k' \<noteq> k \<and> k' \<noteq> KStr ''total'' \<longrightarrow>
      (?s1(KStr ''total'' \<mapsto> t + 1)) k' = summary k'"
    by simp
  have missing: "map_of kvs ''Severity'' = None \<longrightarrow> k = KStr ''UNKNOWN''"
    using assms(2) by (auto simp: reported_severity_def)
  have label: "\<forall>l. map_of kvs ''Severity'' = Some (PStr l) \<longrightarrow> k = KStr l"
    using assms(2) by (auto simp: reported_severity_def)
  have null: "map_of kvs ''Severity'' = Some PNone \<longrightarrow> k = KNone"
    using assms(2) by (auto simp: reported_severity_def)
  have number: "\<forall>i. map_of kvs ''Severity'' = Some (PInt i) \<longrightarrow> k = KNum (of_int i)"
    using assms(2) by (auto simp: reported_severity_def)
  show ?thesis
    by (intro exI [of _ "?s1(KStr ''total'' \<mapsto> t + 1)"] conjI
        run bucket total others missing label null number)
qed

theorem count_vuln_bucket_witness:
  "(\<exists>summary'.
      count_vuln summary0
        (PDict [(''VulnerabilityID'', PStr ''GHSA-0001''), (''Severity'', PStr ''NEGLIGIBLE'')])
        = Inr summary' \<and>
      summary' (KStr ''NEGLIGIBLE'') = Some 1 \<and>
      summary' (KStr ''total'') = Some 1 \<and>
      summary' (KStr ''UNKNOWN'') = Some 0) \<and>
   (\<exists>summary'.
      count_vuln summary0 (PDict [(''VulnerabilityID'', PStr ''GHSA-0002'')]) = Inr summary' \<and>
      summary' (KStr ''UNKNOWN'') = Some 1 \<and>
      summary' (KStr ''total'') = Some 1 \<and>
      summary' (KStr ''HIGH'') = Some 0) \<and>
   (\<exists>summary'.
      count_vuln summary0 (PDict [(''Severity'', PNone)]) = Inr summary' \<and>
      summary' KNone = Some 1 \<and>
      summary' (KStr ''total'') = Some 1 \<and>
      summary' (KStr ''UNKNOWN'') = Some 0)"
proof -
  have t: "summary0 (KStr ''total'') = Some 0"
    by (simp add: summary0_def)
  have u: "summary0 (KStr ''UNKNOWN'') = Some 0" and h: "summary0 (KStr ''HIGH'') = Some 0"
    and n: "summary0 (KStr ''NEGLIGIBLE'') = None" and z: "summary0 KNone = None"
    by (simp_all add: summary0_def)
  have k1: "py_key (reported_severity
      [(''VulnerabilityID'', PStr ''GHSA-0001''), (''Severity'', PStr ''NEGLIGIBLE'')])
      = Inr (KStr ''NEGLIGIBLE'')"
    by (simp add: reported_severity_def)
  have k2: "py_key (reported_severity [(''VulnerabilityID'', PStr ''GHSA-0002'')])
      = Inr (KStr ''UNKNOWN'')"
    by (simp add: reported_severity_def)
  have k3: "py_key (reported_severity [(''Severity'', PNone)]) = Inr KNone"
    by (simp add: reported_severity_def)
  have ne1: "KStr ''NEGLIGIBLE'' \<noteq> KStr ''total''" and ne2: "KStr ''UNKNOWN'' \<noteq> KStr ''total''"
    and ne3: "KNone \<noteq> KStr ''total''"
    by simp_all
  from count_vuln_bucket [where summary = summary0 and t = 0, OF t k1 ne1]
  obtain s1 where s1:
    "count_vuln summary0
        (PDict [(''VulnerabilityID'', PStr ''GHSA-0001''), (''Severity'', PStr ''NEGLIGIBLE'')])
        = Inr s1"
    "s1 (KStr ''NEGLIGIBLE'') =
       Some ((case summary0 (KStr ''NEGLIGIBLE'') of None \<Rightarrow> 0 | Some n \<Rightarrow> n) + 1)"
    "s1 (KStr ''total'') = Some (0 + 1)"
    "\<forall>k'. k' \<noteq> KStr ''NEGLIGIBLE'' \<and> k' \<noteq> KStr ''total'' \<longrightarrow> s1 k' = summary0 k'"
    by (elim exE conjE) (rule that)
  from s1(4) have "s1 (KStr ''UNKNOWN'') = summary0 (KStr ''UNKNOWN'')" by simp
  with s1 u n have 1:
    "\<exists>summary'.
      count_vuln summary0
        (PDict [(''VulnerabilityID'', PStr ''GHSA-0001''), (''Severity'', PStr ''NEGLIGIBLE'')])
        = Inr summary' \<and>
      summary' (KStr ''NEGLIGIBLE'') = Some 1 \<and>
      summary' (KStr ''total'') = Some 1 \<and>
      summary' (KStr ''UNKNOWN'') = Some 0"
    by (intro exI [of _ s1]) simp
  from count_vuln_bucket [where summary = summary0 and t = 0, OF t k2 ne2]
  obtain s2 where s2:
    "count_vuln summary0 (PDict [(''VulnerabilityID'', PStr ''GHSA-0002'')]) = Inr s2"
    "s2 (KStr ''UNKNOWN'') =
       Some ((case summary0 (KStr ''UNKNOWN'') of None \<Rightarrow> 0 | Some n \<Rightarrow> n) + 1)"
    "s2 (KStr ''total'') = Some (0 + 1)"
    "\<forall>k'. k' \<noteq> KStr ''UNKNOWN'' \<and> k' \<noteq> KStr ''total'' \<longrightarrow> s2 k' = summary0 k'"
    by (elim exE conjE) (rule that)
  from s2(4) have "s2 (KStr ''HIGH'') = summary0 (KStr ''HIGH'')" by simp
  with s2 u h have 2:
    "\<exists>summary'.
      count_vuln summary0 (PDict [(''VulnerabilityID'', PStr ''GHSA-0002'')]) = Inr summary' \<and>
      summary' (KStr ''UNKNOWN'') = Some 1 \<and>
      summary' (KStr ''total'') = Some 1 \<and>
      summary' (KStr ''HIGH'') = Some 0"
    by (intro exI [of _ s2]) simp
  from count_vuln_bucket [where summary = summary0 and t = 0, OF t k3 ne3]
  obtain s3 where s3:
    "count_vuln summary0 (PDict [(''Severity'', PNone)]) = Inr s3"
    "s3 KNone = Some ((case summary0 KNone of None \<Rightarrow> 0 | Some n \<Rightarrow> n) + 1)"
    "s3 (KStr ''total'') = Some (0 + 1)"
    "\<forall>k'. k' \<noteq> KNone \<and> k' \<noteq> KStr ''total'' \<longrightarrow> s3 k' = summary0 k'"
    by (elim exE conjE) (rule that)
  from s3(4) have "s3 (KStr ''UNKNOWN'') = summary0 (KStr ''UNKNOWN'')" by simp
  with s3 u z have 3:
    "\<exists>summary'.
      count_vuln summary0 (PDict [(''Severity'', PNone)]) = Inr summary' \<and>
      summary' KNone = Some 1 \<and>
      summary' (KStr ''total'') = Some 1 \<and>
      summary' (KStr ''UNKNOWN'') = Some 0"
    by (intro exI [of _ s3]) simp
  from 1 2 3 show ?thesis by (intro conjI)
qed

text \<open>
  The claim as it was stated fails on \<open>odd_scan\<close>: the entry reporting \<open>NEGLIGIBLE\<close> is not
  counted under \<open>UNKNOWN\<close> (which holds only the entry without severity) but under a key
  of its own. It also fails on \<open>colliding_scan\<close>: its one entry, reporting the word
  \<open>total\<close>, takes \<open>total\<close> to two.
\<close>

theorem unknown_label_counterexample:
  "count_under (get_vulnerability_summary odd_scan) ''UNKNOWN'' = Some 1 \<and>
   count_under (get_vulnerability_summary odd_scan) ''NEGLIGIBLE'' = Some 1 \<and>
   count_under (get_vulnerability_summary odd_scan) ''total'' = Some 2 \<and>
   length (vulnerability_entries colliding_scan) = 1 \<and>
   count_under (get_vulnerability_summary colliding_scan) ''total'' = Some 2"
  by (simp add: count_under_def get_vulnerability_summary_def count_result_def
      count_vuln_def summary0_def odd_scan_def colliding_scan_def
      vulnerability_entries_def result_vulnerabilities_def)

section \<open>Properties of the summary on inputs without a result list\<close>

text \<open>
  C4 (as amended). On \<open>None\<close>, on an empty or zero value, and on a dictionary, list or
  string in which \<open>Results\<close> does not occur, \<open>get_vulnerability_summary\<close> returns the
  all-zero summary and does not raise.
\<close>

theorem summary_without_results:
  assumes "no_result_list v"
  shows "get_vulnerability_summary v = Inr summary0"
  using assms by (cases v) (simp_all add: get_vulnerability_summary_def)

theorem summary_without_results_witness:
  "no_result_list (PDict [(''SchemaVersion'', PInt 2), (''ArtifactName'', PStr ''alpine:3.19'')]) \<and>
   get_vulnerability_summary
     (PDict [(''SchemaVersion'', PInt 2), (''ArtifactName'', PStr ''alpine:3.19'')]) = Inr summary0"
proof -
  have h: "no_result_list
      (PDict [(''SchemaVersion'', PInt 2), (''ArtifactName'', PStr ''alpine:3.19'')])"
    by simp
  from summary_without_results [OF h] h show ?thesis by simp
qed

text \<open>
  The claim as it was stated fails on a dictionary whose \<open>Results\<close> is null: there is no
  result list to recognise, and the loop over it raises \<open>TypeError\<close>.
\<close>

theorem summary_raises_counterexample:
  "get_vulnerability_summary (PDict [(''Results'', PNone)]) = Inl TypeError"
  by (simp add: get_vulnerability_summary_def)

section \<open>Properties of the summary on every input it returns on\<close>

lemma has_buckets_start: "has_buckets summary0"
  by (simp add: has_buckets_def summary0_def summary_keys_def severity_labels_def)

lemma has_buckets_update:
  assumes "has_buckets s" "0 \<le> n"
  shows "has_buckets (s(k \<mapsto> n))"
  using assms by (auto simp: has_buckets_def)

lemma count_vuln_buckets:
  assumes "has_buckets s" "count_vuln s v = Inr s'"
  shows "has_buckets s'"
proof -
  from assms(2) obtain kvs where v: "v = PDict kvs"
    by (cases v) (simp_all add: count_vuln_def)
  define sev where
    "sev = (case map_of kvs ''Severity'' of None \<Rightarrow> PStr ''UNKNOWN'' | Some x \<Rightarrow> x)"
  from assms(2) v obtain k where k: "py_key sev = Inr k"
    by (cases "py_key sev") (simp_all add: count_vuln_def sev_def)
  define s1 where "s1 = s(k \<mapsto> (case s k of None \<Rightarrow> 0 | Some n \<Rightarrow> n) + 1)"
  have "count_vuln s v =
      (case s1 (KStr ''total'') of None \<Rightarrow> Inl KeyError
       | Some t \<Rightarrow> Inr (s1(KStr ''total'' \<mapsto> t + 1)))"
    using k unfolding v count_vuln_def sev_def s1_def by (simp add: Let_def)
  with assms(2) obtain t where t: "s1 (KStr ''total'') = Some t"
    and s': "s' = s1(KStr ''total'' \<mapsto> t + 1)"
    by (cases "s1 (KStr ''total'')") simp_all
  have old: "0 \<le> (case s k of None \<Rightarrow> 0 | Some n \<Rightarrow> n)" if "k \<in> KStr ` set summary_keys"
    using that assms(1) by (auto simp: has_buckets_def split: option.splits)
  have step1: "has_buckets s1"
  proof (cases "k \<in> KStr ` set summary_keys")
    case True
    from old [OF True] have "0 \<le> (case s k of None \<Rightarrow> 0 | Some n \<Rightarrow> n) + 1"
      by simp
    from has_buckets_update [OF assms(1) this] show ?thesis
      by (simp add: s1_def)
  next
    case False
    with assms(1) show ?thesis by (auto simp: has_buckets_def s1_def)
  qed
  then have "0 \<le> t" using t
    by (auto simp: has_buckets_def summary_keys_def)
  with step1 show ?thesis unfolding s'
    by (intro has_buckets_update) simp_all
qed

lemma count_vulns_buckets:
  "has_buckets s \<Longrightarrow> count_vulns s vs = Inr s' \<Longrightarrow> has_buckets s'"
proof (induction vs arbitrary: s)
  case Nil
  then show ?case by simp
next
  case (Cons v vs)
  from Cons.prems(2) obtain s1 where s1: "count_vuln s v = Inr s1" "count_vulns s1 vs = Inr s'"
    by (auto split: sum.splits)
  from Cons.IH [OF count_vuln_buckets [OF Cons.prems(1) s1(1)] s1(2)] show ?case .
qed

lemma count_result_buckets:
  assumes "has_buckets s" "count_result s r = Inr s'"
  shows "has_buckets s'"
proof -
  have "s' = s \<or> (\<exists>vs. count_vulns s vs = Inr s')"
  proof (cases "py_contains ''Vulnerabilities'' r")
    case (Inl e)
    with assms(2) show ?thesis by (simp add: count_result_def)
  next
    case (Inr b)
    show ?thesis
    proof (cases b)
      case False
      with Inr assms(2) show ?thesis by (simp add: count_result_def)
    next
      case True
      show ?thesis
      proof (cases "py_getitem r ''Vulnerabilities''")
        case (Inl e)
        with Inr True assms(2) show ?thesis by (simp add: count_result_def)
      next
        case got: (Inr x)
        show ?thesis
        proof (cases "py_iter x")
          case (Inl e)
          with Inr True got assms(2) show ?thesis
            by (simp add: count_result_def split: if_splits)
        next
          case it: (Inr vulns)
          with Inr True got assms(2) show ?thesis
            by (simp add: count_result_def split: if_splits) blast
        qed
      qed
    qed
  qed
  then consider (same) "s' = s" | (walk) vs where "count_vulns s vs = Inr s'"
    by blast
  then show ?thesis
  proof cases
    case same
    with assms(1) show ?thesis by simp
  next
    case walk
    from count_vulns_buckets [OF assms(1) walk] show ?thesis .
  qed
qed

lemma count_results_buckets:
  "has_buckets s \<Longrightarrow> count_results s rs = Inr s' \<Longrightarrow> has_buckets s'"
proof (induction rs arbitrary: s)
  case Nil
  then show ?case by simp
next
  case (Cons r rs)
  from Cons.prems(2) obtain s1 where s1: "count_result s r = Inr s1" "count_results s1 rs = Inr s'"
    by (auto split: sum.splits)
  from Cons.IH [OF count_result_buckets [OF Cons.prems(1) s1(1)] s1(2)] show ?case .
qed

text \<open>
  C10. Whenever \<open>get_vulnerability_summary\<close> returns, the mapping it returns binds each of
  \<open>CRITICAL\<close>, \<open>HIGH\<close>, \<open>MEDIUM\<close>, \<open>LOW\<close>, \<open>UNKNOWN\<close> and \<open>total\<close> to an integer that is
  not negative, whatever the input was.
\<close>

theorem summary_keys_present:
  assumes "get_vulnerability_summary v = Inr s"
  shows "\<forall>k \<in> {''CRITICAL'', ''HIGH'', ''MEDIUM'', ''LOW'', ''UNKNOWN'', ''total''}.
           \<exists>n. s (KStr k) = Some n \<and> 0 \<le> n"
proof -
  have "s = summary0 \<or> (\<exists>rs. count_results summary0 rs = Inr s)"
  proof (cases "py_truthy v")
    case False
    with assms show ?thesis by (simp add: get_vulnerability_summary_def)
  next
    case truthy: True
    show ?thesis
    proof (cases "py_contains ''Results'' v")
      case (Inl e)
      with truthy assms show ?thesis by (simp add: get_vulnerability_summary_def)
    next
      case (Inr b)
      show ?thesis
      proof (cases b)
        case False
        with truthy Inr assms show ?thesis by (simp add: get_vulnerability_summary_def)
      next
        case True
        with truthy Inr assms show ?thesis
          by (auto simp: get_vulnerability_summary_def split: sum.splits)
      qed
    qed
  qed
  then consider (zero) "s = summary0" | (walk) rs where "count_results summary0 rs = Inr s"
    by blast
  then have "has_buckets s"
  proof cases
    case zero
    then show ?thesis by (simp add: has_buckets_start)
  next
    case walk
    from count_results_buckets [OF has_buckets_start walk] show ?thesis .
  qed
  then show ?thesis
    by (simp add: has_buckets_def summary_keys_def severity_labels_def)
qed

theorem summary_keys_present_witness:
  "\<exists>s. get_vulnerability_summary sample_scan = Inr s \<and>
       (\<exists>n. s (KStr ''CRITICAL'') = Some n \<and> 0 \<le> n) \<and>
       (\<exists>n. s (KStr ''HIGH'') = Some n \<and> 0 \<le> n) \<and>
       (\<exists>n. s (KStr ''MEDIUM'') = Some n \<and> 0 \<le> n) \<and>
       (\<exists>n. s (KStr ''LOW'') = Some n \<and> 0 \<le> n) \<and>
       (\<exists>n. s (KStr ''UNKNOWN'') = Some n \<and> 0 \<le> n) \<and>
       (\<exists>n. s (KStr ''total'') = Some n \<and> 0 \<le> n)"
proof -
  have "scan_shape wf_vuln sample_scan"
    by (simp add: scan_shape_def result_shape_def wf_vuln_def sample_scan_def
        severity_labels_def)
  from summary_invariant [where I = tallies and P = wf_vuln,
      OF count_vuln_tallies tallies_start this]
  obtain s where s: "get_vulnerability_summary sample_scan = Inr s" by blast
  from summary_keys_present [OF s] s show ?thesis by simp
qed

section \<open>Properties of scanning one image\<close>

lemma log_add_fields [simp]:
  "world (log_add entry s) = world s"
  "calls (log_add entry s) = calls s"
  "scans (log_add entry s) = scans s"
  "logger (log_add entry s) = logger s @ [entry]"
  by (simp_all add: log_add_def)

lemma run_cmd_fields:
  "fst (run_cmd E cmd s) = fst (subprocess_run E cmd (world s))"
  "world (snd (run_cmd E cmd s)) = world_after E cmd (world s)"
  "calls (snd (run_cmd E cmd s)) = calls s @ [cmd]"
  "scans (snd (run_cmd E cmd s)) = scans s"
  "logger (snd (run_cmd E cmd s)) = logger s"
  by (simp_all add: run_cmd_def)

lemma save_output_fields:
  "calls (snd (save_output E self output_file out s)) = calls s"
  "scans (snd (save_output E self output_file out s)) = scans s"
  by (simp_all add: save_output_def Let_def case_prod_beta split: option.splits)

lemma save_output_none [simp]: "save_output E self None out s = (None, s)"
  by (simp add: save_output_def)

lemma scan_image_try_fields:
  "calls (snd (scan_image_try E self image_ref format severity output_file vuln_type s)) =
     calls s @ [scan_cmd self image_ref format severity vuln_type]"
  "scans (snd (scan_image_try E self image_ref format severity output_file vuln_type s)) =
     scans s"
proof -
  let ?cmd = "scan_cmd self image_ref format severity vuln_type"
  obtain r s1 where run: "run_cmd E ?cmd s = (r, s1)" by (cases "run_cmd E ?cmd s")
  from run_cmd_fields(3,4) [of E ?cmd s] run
  have s1: "calls s1 = calls s @ [?cmd]" "scans s1 = scans s" by simp_all
  show "calls (snd (scan_image_try E self image_ref format severity output_file vuln_type s)) =
     calls s @ [?cmd]"
  proof (cases r)
    case (Inl e)
    with run s1 show ?thesis by (simp add: scan_image_try_def)
  next
    case (Inr c)
    obtain rc out err where c: "c = Completed rc out err" by (cases c)
    obtain w s2 where sv: "save_output E self output_file out s1 = (w, s2)"
      by (cases "save_output E self output_file out s1")
    from save_output_fields(1) [of E self output_file out s1] sv s1
    have "calls s2 = calls s @ [?cmd]" by simp
    with run Inr c sv s1 show ?thesis
      by (simp add: scan_image_try_def split: option.splits sum.splits)
  qed
  show "scans (snd (scan_image_try E self image_ref format severity output_file vuln_type s)) =
     scans s"
  proof (cases r)
    case (Inl e)
    with run s1 show ?thesis by (simp add: scan_image_try_def)
  next
    case (Inr c)
    obtain rc out err where c: "c = Completed rc out err" by (cases c)
    obtain w s2 where sv: "save_output E self output_file out s1 = (w, s2)"
      by (cases "save_output E self output_file out s1")
    from save_output_fields(2) [of E self output_file out s1] sv s1
    have "scans s2 = scans s" by simp
    with run Inr c sv s1 show ?thesis
      by (simp add: scan_image_try_def split: option.splits sum.splits)
  qed
qed

lemma database_present_iff:
  "database_present w \<longleftrightarrow> (\<exists>e es. db_dir w = Present (e # es))"
  by (cases "db_dir w")
     (auto simp: database_present_def database_missing_def neq_Nil_conv)

lemma database_missing_iff:
  "database_missing w = Inr True \<longleftrightarrow> db_dir w = Absent \<or> db_dir w = Present []"
  by (cases "db_dir w") (auto simp: database_missing_def)

lemma scan_image_absent:
  assumes "database_missing (world s) = Inr True"
  shows "scan_image E self image_ref format severity output_file vuln_type s =
           (Inr PNone,
            log_add (LogError ''Trivy database not found. Please run setup_database() first.'')
              (s\<lparr>scans := scans s @ [image_ref]\<rparr>))"
  using assms by (simp add: scan_image_def Let_def)

lemma scan_image_present:
  assumes "database_present (world s)"
  shows "scan_image E self image_ref format severity output_file vuln_type s =
           (case scan_image_try E self image_ref format severity output_file vuln_type
                   (s\<lparr>scans := scans s @ [image_ref]\<rparr>) of
              (Inl e, s1) \<Rightarrow> (Inr PNone, log_add (LogErrorExn ''Scan failed: '' e) s1)
            | (Inr v, s1) \<Rightarrow> (Inr v, s1))"
  using assms by (simp add: scan_image_def database_present_def Let_def)

lemma scan_image_unlistable:
  assumes "db_dir (world s) = Unlistable e"
  shows "scan_image E self image_ref format severity output_file vuln_type s =
           (Inl e, s\<lparr>scans := scans s @ [image_ref]\<rparr>)"
  using assms by (simp add: scan_image_def database_missing_def Let_def)

lemma database_cases:
  obtains (missing) "database_missing w = Inr True"
    | (present) "database_present w"
    | (unlistable) e where "db_dir w = Unlistable e"
  by (cases "db_dir w") (auto simp: database_missing_def database_present_def)

lemma scan_image_caught:
  assumes "\<And>e. db_dir (world s) \<noteq> Unlistable e"
  shows "\<exists>r. fst (scan_image E self image_ref format severity output_file vuln_type s) = Inr r"
proof (cases "world s" rule: database_cases)
  case missing
  then show ?thesis by (simp add: scan_image_absent)
next
  case present
  then show ?thesis
    by (auto simp: scan_image_present split: prod.splits sum.splits)
next
  case (unlistable e)
  with assms [of e] show ?thesis by simp
qed

lemma scan_image_scans:
  "scans (snd (scan_image E self image_ref format severity output_file vuln_type s)) =
     scans s @ [image_ref]"
proof (cases "world s" rule: database_cases)
  case missing
  then show ?thesis by (simp add: scan_image_absent)
next
  case present
  let ?s = "s\<lparr>scans := scans s @ [image_ref]\<rparr>"
  from scan_image_try_fields(2) [of E self image_ref format severity output_file vuln_type ?s]
  show ?thesis
    by (auto simp: scan_image_present [OF present] split: prod.splits sum.splits)
next
  case (unlistable e)
  then show ?thesis by (simp add: scan_image_unlistable)
qed

lemma scan_image_calls:
  assumes "database_present (world s)"
  shows "calls (snd (scan_image E self image_ref format severity output_file vuln_type s)) =
     calls s @ [scan_cmd self image_ref format severity vuln_type]"
proof -
  let ?s = "s\<lparr>scans := scans s @ [image_ref]\<rparr>"
  from scan_image_try_fields(1) [of E self image_ref format severity output_file vuln_type ?s]
  show ?thesis
    by (auto simp: scan_image_present [OF assms] split: prod.splits sum.splits)
qed

lemma join_commas: "join sep (x # xs) = x @ concat (map (\<lambda>y. sep @ y) xs)"
  by (induction xs arbitrary: x) simp_all

lemma scan_cmd_shape:
  "scan_cmd self image_ref format severity vuln_type =
     [''docker'', ''run'', ''--rm'',
      ''-v'', ''/var/run/docker.sock:/var/run/docker.sock:ro'',
      ''-v'', cache_path self @ '':/root/.cache/trivy'',
      ''-v'', db_path self @ '':/trivy-db:ro'',
      ''-e'', ''TRIVY_CACHE_DIR=/root/.cache/trivy'',
      ''-e'', ''TRIVY_DB_REPOSITORY=file:///trivy-db'',
      ''-e'', ''TRIVY_SKIP_UPDATE=true'',
      ''aquasec/trivy:latest'', ''image'',
      ''--format'', format]
     @ (case severity of
          Some (x # xs) \<Rightarrow> [''--severity'', x @ concat (map (\<lambda>y. '','' @ y) xs)]
        | _ \<Rightarrow> [])
     @ (case vuln_type of
          Some (x # xs) \<Rightarrow> [''--vuln-type'', x @ concat (map (\<lambda>y. '','' @ y) xs)]
        | _ \<Rightarrow> [])
     @ [image_ref]"
proof -
  have one: "(@) [c] = (#) c" for c :: char
    by (rule ext) simp
  show ?thesis
    by (simp add: scan_cmd_def join_commas one split: option.splits list.splits)
qed

text \<open>
  C1. When the database directory exists and has an entry, \<open>scan_image\<close> hands exactly
  one command to the process invoker: the runtime socket mounted read-only, the cache
  directory mounted (read-write), the database directory mounted read-only, the three
  environment variables (cache directory, file-scheme database repository, skip update),
  the format flag, then \<open>--severity\<close> with the severities joined by commas when a
  non-empty list is given, then \<open>--vuln-type\<close> likewise, and the image reference last.
\<close>

theorem scan_image_invocation:
  assumes "db_dir (world s) = Present (e # es)"
  shows "calls (snd (scan_image E self image_ref format severity output_file vuln_type s)) =
     calls s @
     [[''docker'', ''run'', ''--rm'',
       ''-v'', ''/var/run/docker.sock:/var/run/docker.sock:ro'',
       ''-v'', cache_path self @ '':/root/.cache/trivy'',
       ''-v'', db_path self @ '':/trivy-db:ro'',
       ''-e'', ''TRIVY_CACHE_DIR=/root/.cache/trivy'',
       ''-e'', ''TRIVY_DB_REPOSITORY=file:///trivy-db'',
       ''-e'', ''TRIVY_SKIP_UPDATE=true'',
       ''aquasec/trivy:latest'', ''image'',
       ''--format'', format]
      @ (case severity of
           Some (x # xs) \<Rightarrow> [''--severity'', x @ concat (map (\<lambda>y. '','' @ y) xs)]
         | _ \<Rightarrow> [])
      @ (case vuln_type of
           Some (x # xs) \<Rightarrow> [''--vuln-type'', x @ concat (map (\<lambda>y. '','' @ y) xs)]
         | _ \<Rightarrow> [])
      @ [image_ref]]"
proof -
  from assms have "database_present (world s)"
    by (simp add: database_present_iff)
  from scan_image_calls [OF this] show ?thesis
    by (simp only: scan_cmd_shape)
qed

theorem scan_image_invocation_witness:
  "db_dir (world (state_with (Present [''trivy.db'', ''metadata.json''])))
     = Present [''trivy.db'', ''metadata.json''] \<and>
   calls (snd (scan_image (fixed_env (Inr (Completed 0 ''[]'' []))) sample_scanner
                 ''nginx:latest'' ''json'' (Some [''CRITICAL'', ''HIGH'']) None (Some [''os''])
                 (state_with (Present [''trivy.db'', ''metadata.json''])))) =
     [[''docker'', ''run'', ''--rm'',
       ''-v'', ''/var/run/docker.sock:/var/run/docker.sock:ro'',
       ''-v'', ''/opt/scanner/trivy-cache:/root/.cache/trivy'',
       ''-v'', ''/opt/scanner/trivy-db:/trivy-db:ro'',
       ''-e'', ''TRIVY_CACHE_DIR=/root/.cache/trivy'',
       ''-e'', ''TRIVY_DB_REPOSITORY=file:///trivy-db'',
       ''-e'', ''TRIVY_SKIP_UPDATE=true'',
       ''aquasec/trivy:latest'', ''image'',
       ''--format'', ''json'',
       ''--severity'', ''CRITICAL,HIGH'',
       ''--vuln-type'', ''os'',
       ''nginx:latest'']]"
proof -
  have h: "db_dir (world (state_with (Present [''trivy.db'', ''metadata.json''])))
      = Present (''trivy.db'' # [''metadata.json''])"
    by (simp add: state_with_def)
  from scan_image_invocation [OF h, of "fixed_env (Inr (Completed 0 ''[]'' []))"
      sample_scanner "''nginx:latest''" "''json''" "Some [''CRITICAL'', ''HIGH'']" None
      "Some [''os'']"] h
  show ?thesis by (simp add: state_with_def sample_scanner_def)
qed

text \<open>
  C2. When the database directory does not exist, or exists without entries,
  \<open>scan_image\<close> returns \<open>None\<close>, hands no command to the process invoker and leaves the
  world as it was; whenever it does hand over a command, the directory exists and has
  an entry.
\<close>

theorem scan_image_database_missing:
  "(db_dir (world s) = Absent \<or> db_dir (world s) = Present [] \<longrightarrow>
      fst (scan_image E self image_ref format severity output_file vuln_type s) = Inr PNone \<and>
      calls (snd (scan_image E self image_ref format severity output_file vuln_type s)) = calls s \<and>
      world (snd (scan_image E self image_ref format severity output_file vuln_type s)) = world s) \<and>
   (calls (snd (scan_image E self image_ref format severity output_file vuln_type s)) \<noteq> calls s \<longrightarrow>
      (\<exists>e es. db_dir (world s) = Present (e # es)))"
proof (cases "world s" rule: database_cases)
  case missing
  then show ?thesis
    by (simp add: scan_image_absent)
next
  case present
  then show ?thesis by (auto simp: database_present_iff)
next
  case (unlistable e)
  then show ?thesis by (simp add: scan_image_unlistable)
qed

theorem scan_image_database_missing_witness:
  "fst (scan_image (fixed_env (Inr (Completed 0 ''[]'' []))) sample_scanner
          ''nginx:latest'' ''json'' None None None (state_with Absent)) = Inr PNone \<and>
   calls (snd (scan_image (fixed_env (Inr (Completed 0 ''[]'' []))) sample_scanner
          ''nginx:latest'' ''json'' None None None (state_with Absent))) = [] \<and>
   fst (scan_image (fixed_env (Inr (Completed 0 ''[]'' []))) sample_scanner
          ''nginx:latest'' ''json'' None None None (state_with (Present []))) = Inr PNone \<and>
   calls (snd (scan_image (fixed_env (Inr (Completed 0 ''[]'' []))) sample_scanner
          ''nginx:latest'' ''json'' None None None (state_with (Present [])))) = [] \<and>
   calls (snd (scan_image (fixed_env (Inr (Completed 0 ''[]'' []))) sample_scanner
          ''nginx:latest'' ''json'' None None None (state_with (Present [''trivy.db''])))) \<noteq> [] \<and>
   (\<exists>e es. db_dir (world (state_with (Present [''trivy.db'']))) = Present (e # es))"
proof -
  let ?E = "fixed_env (Inr (Completed 0 ''[]'' []))"
  note miss = scan_image_database_missing [of _ ?E sample_scanner "''nginx:latest''" "''json''" None None None]
  have a: "db_dir (world (state_with Absent)) = Absent" by (simp add: state_with_def)
  have b: "db_dir (world (state_with (Present []))) = Present []" by (simp add: state_with_def)
  have c: "calls (state_with d) = []" for d by (simp add: state_with_def)
  have run: "calls (snd (scan_image ?E sample_scanner
          ''nginx:latest'' ''json'' None None None (state_with (Present [''trivy.db''])))) \<noteq> []"
    by (simp add: scan_image_calls database_present_iff state_with_def)
  from miss [of "state_with Absent"] a c have 1:
    "fst (scan_image ?E sample_scanner ''nginx:latest'' ''json'' None None None (state_with Absent)) = Inr PNone"
    "calls (snd (scan_image ?E sample_scanner ''nginx:latest'' ''json'' None None None (state_with Absent))) = []"
    by simp_all
  from miss [of "state_with (Present [])"] b c have 2:
    "fst (scan_image ?E sample_scanner ''nginx:latest'' ''json'' None None None (state_with (Present []))) = Inr PNone"
    "calls (snd (scan_image ?E sample_scanner ''nginx:latest'' ''json'' None None None (state_with (Present [])))) = []"
    by simp_all
  from miss [of "state_with (Present [''trivy.db''])"] run c have 3:
    "\<exists>e es. db_dir (world (state_with (Present [''trivy.db'']))) = Present (e # es)"
    by simp
  from 1 2 3 run show ?thesis by simp
qed

text \<open>
  C6 (as amended). When \<open>scan_image\<close> runs with the json format, the process returns
  zero and its output does not decode, the decoding error is caught by the handler that
  catches every other exception of the scan: an error \<open>Scan failed: ...\<close> is logged and
  \<open>scan_image\<close> returns \<open>None\<close>, the very value it returns for a failed scan. Without
  an output file the logged exception is the decoding error.
\<close>

theorem scan_image_decode_failure:
  assumes "db_dir (world s) = Present (e # es)"
    and "subprocess_run E (scan_cmd self image_ref ''json'' severity vuln_type) (world s) =
           (Inr (Completed 0 out err), y, ch)"
    and "json_loads E out = Inl x"
  shows "fst (scan_image E self image_ref ''json'' severity output_file vuln_type s) = Inr PNone \<and>
         (\<exists>x'. last (logger (snd (scan_image E self image_ref ''json'' severity output_file
                                    vuln_type s))) = LogErrorExn ''Scan failed: '' x') \<and>
         (output_file = None \<longrightarrow>
            last (logger (snd (scan_image E self image_ref ''json'' severity output_file
                                 vuln_type s))) = LogErrorExn ''Scan failed: '' x)"
proof -
  let ?cmd = "scan_cmd self image_ref ''json'' severity vuln_type"
  let ?s = "s\<lparr>scans := scans s @ [image_ref]\<rparr>"
  from assms(1) have present: "database_present (world s)"
    by (simp add: database_present_iff)
  obtain s1 where run: "run_cmd E ?cmd ?s = (Inr (Completed 0 out err), s1)"
    using assms(2) by (simp add: run_cmd_def)
  obtain r s2 where sv: "save_output E self output_file out s1 = (r, s2)"
    by (cases "save_output E self output_file out s1")
  have body: "\<exists>x'. scan_image_try E self image_ref ''json'' severity output_file vuln_type ?s
               = (Inl x', s2) \<and> (output_file = None \<longrightarrow> x' = x)"
    using run sv assms(3)
    by (cases r) (auto simp: scan_image_try_def)
  then obtain x' where x': "scan_image_try E self image_ref ''json'' severity output_file vuln_type ?s
               = (Inl x', s2)" "output_file = None \<longrightarrow> x' = x"
    by blast
  from x'(1) have "scan_image E self image_ref ''json'' severity output_file vuln_type s =
      (Inr PNone, log_add (LogErrorExn ''Scan failed: '' x') s2)"
    by (simp add: scan_image_present [OF present])
  with x'(2) show ?thesis by auto
qed

theorem scan_image_decode_failure_witness:
  "db_dir (world (state_with (Present [''trivy.db'']))) = Present [''trivy.db''] \<and>
   subprocess_run (fixed_env (Inr (Completed 0 ''not json'' [])))
     (scan_cmd sample_scanner ''nginx:latest'' ''json'' None None)
     (world (state_with (Present [''trivy.db''])))
     = (Inr (Completed 0 ''not json'' []), (), Untouched) \<and>
   json_loads (fixed_env (Inr (Completed 0 ''not json'' []))) ''not json''
     = Inl (JSONDecodeError ''Expecting value'') \<and>
   fst (scan_image (fixed_env (Inr (Completed 0 ''not json'' []))) sample_scanner
          ''nginx:latest'' ''json'' None None None (state_with (Present [''trivy.db''])))
     = Inr PNone \<and>
   last (logger (snd (scan_image (fixed_env (Inr (Completed 0 ''not json'' []))) sample_scanner
          ''nginx:latest'' ''json'' None None None (state_with (Present [''trivy.db''])))))
     = LogErrorExn ''Scan failed: '' (JSONDecodeError ''Expecting value'')"
proof -
  let ?E = "fixed_env (Inr (Completed 0 ''not json'' []))"
  let ?s = "state_with (Present [''trivy.db''])"
  have a: "db_dir (world ?s) = Present (''trivy.db'' # [])"
    by (simp add: state_with_def)
  have b: "subprocess_run ?E (scan_cmd sample_scanner ''nginx:latest'' ''json'' None None) (world ?s)
     = (Inr (Completed 0 ''not json'' []), (), Untouched)"
    by (simp add: fixed_env_def)
  have c: "json_loads ?E ''not json'' = Inl (JSONDecodeError ''Expecting value'')"
    by (simp add: fixed_env_def sample_loads_def)
  from scan_image_decode_failure [OF a b c, of None] a b c show ?thesis
    by simp
qed

text \<open>
  The claim as it was stated fails: a scan whose output does not decode and a scan whose
  process returns a non-zero code give the caller the same value, \<open>None\<close>.
\<close>

theorem decode_failure_counterexample:
  "fst (scan_image (fixed_env (Inr (Completed 0 ''not json'' []))) sample_scanner
          ''nginx:latest'' ''json'' None None None (state_with (Present [''trivy.db''])))
     = Inr PNone \<and>
   fst (scan_image (fixed_env (Inr (Completed 1 [] ''image not found''))) sample_scanner
          ''nginx:latest'' ''json'' None None None (state_with (Present [''trivy.db''])))
     = Inr PNone"
  by (simp add: scan_image_def scan_image_try_def run_cmd_def database_missing_def
      state_with_def fixed_env_def sample_loads_def Let_def)

section \<open>Properties of scanning several images\<close>

text \<open>
  The loop over a list with one more image is the loop over the list, followed by the
  scan of that image in the state the loop has left, whatever the earlier scans
  returned. Only an exception that leaves \<open>scan_image\<close> ends the loop early.
\<close>

lemma scan_loop_snoc:
  "scan_loop E self (images @ [i]) format severity results s =
     (case scan_loop E self images format severity results s of
        (Inl e, s1) \<Rightarrow> (Inl e, s1)
      | (Inr rs, s1) \<Rightarrow>
          (case scan_image E self i format severity None None
                  (log_add (LogInfo (''Scanning '' @ i @ ''...'')) s1) of
             (Inl e, s2) \<Rightarrow> (Inl e, s2)
           | (Inr r, s2) \<Rightarrow> (Inr (rs(i \<mapsto> r)), s2)))"
proof (induction images arbitrary: results s)
  case Nil
  show ?case by (simp split: prod.splits sum.splits)
next
  case (Cons a images)
  obtain r0 s0 where first:
    "scan_image E self a format severity None None
       (log_add (LogInfo (''Scanning '' @ a @ ''...'')) s) = (r0, s0)"
    by (cases "scan_image E self a format severity None None
       (log_add (LogInfo (''Scanning '' @ a @ ''...'')) s)")
  show ?case
  proof (cases r0)
    case (Inl e)
    with first show ?thesis by simp
  next
    case (Inr r)
    with first have longer:
      "scan_loop E self ((a # images) @ [i]) format severity results s =
         scan_loop E self (images @ [i]) format severity (results(a \<mapsto> r)) s0"
      by simp
    from first Inr have shorter:
      "scan_loop E self (a # images) format severity results s =
         scan_loop E self images format severity (results(a \<mapsto> r)) s0"
      by simp
    show ?thesis unfolding longer shorter by (rule Cons.IH)
  qed
qed

text \<open>
  With a database directory that cannot be listed, the first scan raises, and so does
  the loop: there is no mapping, and no image after the first is scanned.
\<close>

lemma scan_multiple_images_unlistable:
  assumes "db_dir (world s) = Unlistable e"
  shows "scan_multiple_images E self (i # images) format severity s =
           (Inl e, (log_add (LogInfo (''Scanning '' @ i @ ''...'')) s)
                     \<lparr>scans := scans s @ [i]\<rparr>)"
proof -
  let ?s = "log_add (LogInfo (''Scanning '' @ i @ ''...'')) s"
  from assms have "db_dir (world ?s) = Unlistable e" by simp
  from scan_image_unlistable [OF this, of E self i format severity None None]
  show ?thesis by (simp add: scan_multiple_images_def)
qed

text \<open>
  C8. The loop of \<open>scan_multiple_images\<close> goes on after a scan that returned \<open>None\<close>, but
  not every failed scan returns \<open>None\<close>: the test of the database in \<open>scan_image\<close>
  stands before its \<open>try\<close>. Here the database directory exists and may not be listed.
  The scan of the first image raises; \<open>scan_multiple_images\<close> raises with it, returns
  no mapping in which the image is bound to \<open>None\<close>, and never enters \<open>scan_image\<close> for
  the second image.
\<close>

theorem scan_multiple_images_aborts:
  "fst (scan_multiple_images (fixed_env (Inr (Completed 0 ''[]'' []))) sample_scanner
          [''nginx:latest'', ''redis:7''] ''json'' None
          (state_with (Unlistable (OSError ''Permission denied''))))
     = Inl (OSError ''Permission denied'') \<and>
   scans (snd (scan_multiple_images (fixed_env (Inr (Completed 0 ''[]'' []))) sample_scanner
          [''nginx:latest'', ''redis:7''] ''json'' None
          (state_with (Unlistable (OSError ''Permission denied'')))))
     = [''nginx:latest''] \<and>
   calls (snd (scan_multiple_images (fixed_env (Inr (Completed 0 ''[]'' []))) sample_scanner
          [''nginx:latest'', ''redis:7''] ''json'' None
          (state_with (Unlistable (OSError ''Permission denied'')))))
     = []"
  by (simp add: scan_multiple_images_def scan_image_def database_missing_def log_add_def
      state_with_def Let_def)

section \<open>Properties of updating the database\<close>

lemma after_command_exists:
  "d \<noteq> Absent \<Longrightarrow> after_command ch d \<noteq> Absent"
  by (cases ch; cases d) (simp_all add: after_command_def)

lemma world_after_exists:
  "db_dir w \<noteq> Absent \<Longrightarrow> db_dir (world_after E cmd w) \<noteq> Absent"
  by (simp add: world_after_def after_command_exists split: prod.splits)

lemma run_checked_fields:
  "world (snd (run_checked E cmd s)) = world_after E cmd (world s)"
  "calls (snd (run_checked E cmd s)) = calls s @ [cmd]"
proof -
  obtain r s1 where run: "run_cmd E cmd s = (r, s1)" by (cases "run_cmd E cmd s")
  from run_cmd_fields(2,3) [of E cmd s] run
  have s1: "world s1 = world_after E cmd (world s)" "calls s1 = calls s @ [cmd]"
    by simp_all
  have "snd (run_checked E cmd s) = s1"
    using run by (auto simp: run_checked_def split: sum.splits completed.splits)
  with s1 show "world (snd (run_checked E cmd s)) = world_after E cmd (world s)"
    "calls (snd (run_checked E cmd s)) = calls s @ [cmd]"
    by simp_all
qed

lemma run_checked_exists:
  assumes "db_dir (world s) \<noteq> Absent"
  shows "db_dir (world (snd (run_checked E cmd s))) \<noteq> Absent"
  using assms by (simp add: run_checked_fields world_after_exists)

lemma run_checked_pull:
  "fst (run_checked E pull_cmd s) \<noteq> None \<longleftrightarrow> pull_fails E (world s)"
proof -
  obtain r s1 where run: "run_cmd E pull_cmd s = (r, s1)" by (cases "run_cmd E pull_cmd s")
  from run_cmd_fields(1) [of E pull_cmd s] run
  have "fst (subprocess_run E pull_cmd (world s)) = r" by simp
  with run show ?thesis
    by (auto simp: run_checked_def pull_fails_def split: sum.splits completed.splits)
qed

lemma setup_failed_world [simp]: "world (snd (setup_failed e s)) = world s"
  by (cases e) (simp_all add: setup_failed_def)

lemma update_failed_simps [simp]:
  "world (snd (update_failed e s)) = world s"
  "calls (snd (update_failed e s)) = calls s"
  "fst (update_failed e s) = Inr False"
  by (simp_all add: update_failed_def)

lemma setup_database_exists:
  assumes "db_dir (world s) \<noteq> Absent"
  shows "db_dir (world (snd (setup_database E self s))) \<noteq> Absent"
proof -
  let ?s2 = "log_add (LogInfo ''Pulling trivy-db image...'')
               (log_add (LogInfo ''Setting up Trivy database for offline use...'') s)"
  obtain r3 s3 where pull: "run_checked E pull_cmd ?s2 = (r3, s3)"
    by (cases "run_checked E pull_cmd ?s2")
  from run_checked_exists [of ?s2 E pull_cmd] assms pull
  have s3: "db_dir (world s3) \<noteq> Absent" by simp
  show ?thesis
  proof (cases r3)
    case (Some e)
    with pull s3 show ?thesis by (simp add: setup_database_def)
  next
    case None
    let ?s4 = "log_add (LogInfo ''Extracting database files...'') s3"
    obtain r5 s5 where ext: "run_checked E (extract_cmd self) ?s4 = (r5, s5)"
      by (cases "run_checked E (extract_cmd self) ?s4")
    from run_checked_exists [of ?s4 E "extract_cmd self"] s3 ext
    have "db_dir (world s5) \<noteq> Absent" by simp
    with pull None ext show ?thesis
      by (cases r5) (simp_all add: setup_database_def)
  qed
qed

text \<open>The three ways the step that clears the old database can end.\<close>

lemma clear_old_database_kept:
  assumes "db_dir (world s) \<noteq> Absent" "rmtree_error E (world s) = Some (e, left)"
  shows "fst (clear_old_database E s) = Some e"
    and "db_dir (world (snd (clear_old_database E s))) \<noteq> Absent"
  using assms
  by (auto simp: clear_old_database_def rmtree_def split: dir_state.splits)

lemma clear_old_database_lost:
  assumes "db_dir (world s) \<noteq> Absent" "rmtree_error E (world s) = None"
    "mkdir_error E ((world s)\<lparr>db_dir := Absent\<rparr>) = Some e"
  shows "clear_old_database E s = (Some e, s\<lparr>world := (world s)\<lparr>db_dir := Absent\<rparr>\<rparr>)"
  using assms by (simp add: clear_old_database_def rmtree_def mkdir_def)

lemma clear_old_database_fresh:
  assumes "db_dir (world s) \<noteq> Absent" "rmtree_error E (world s) = None"
    "mkdir_error E ((world s)\<lparr>db_dir := Absent\<rparr>) = None"
  shows "clear_old_database E s = (None, s\<lparr>world := (world s)\<lparr>db_dir := Present []\<rparr>\<rparr>)"
  using assms by (simp add: clear_old_database_def rmtree_def mkdir_def)

text \<open>
  C7 (as amended). The database directory, which exists when \<open>update_database\<close> is
  called, exists when \<open>update_database\<close> returns, unless the pull and the deletion
  succeed and creating the directory again fails; and \<open>update_database\<close> always returns
  a boolean. When the pull fails, nothing but the pull has happened: no further command
  is run, nothing is deleted, and the result is \<open>False\<close>. When the deletion fails, the
  directory is still there. When the pull, the deletion and the creation succeed, the
  directory is created again at once: the extraction of \<open>setup_database\<close> starts from an
  existing, empty directory.
\<close>

theorem update_database_keeps_directory:
  assumes "db_dir (world s) \<noteq> Absent"
  shows "(\<exists>ok. fst (update_database E self s) = Inr ok) \<and>
         (\<not> recreation_fails E (world s) \<longrightarrow>
            db_dir (world (snd (update_database E self s))) \<noteq> Absent) \<and>
         (pull_fails E (world s) \<longrightarrow>
            fst (update_database E self s) = Inr False \<and>
            world (snd (update_database E self s)) = world_after E pull_cmd (world s) \<and>
            calls (snd (update_database E self s)) = calls s @ [pull_cmd]) \<and>
         (\<not> pull_fails E (world s) \<and>
          rmtree_error E (world_after E pull_cmd (world s)) = None \<and>
          mkdir_error E ((world_after E pull_cmd (world s))\<lparr>db_dir := Absent\<rparr>) = None \<longrightarrow>
            (\<exists>s3. db_dir (world s3) = Present [] \<and>
               update_database E self s =
                 (case setup_database E self s3 of
                    (Inl e, s4) \<Rightarrow> update_failed e s4
                  | (Inr ok, s4) \<Rightarrow> (Inr ok, s4))))"
proof -
  let ?s1 = "log_add (LogInfo ''Updating Trivy database...'') s"
  let ?w2 = "world_after E pull_cmd (world s)"
  obtain r2 s2 where pull: "run_checked E pull_cmd ?s1 = (r2, s2)"
    by (cases "run_checked E pull_cmd ?s1")
  from run_checked_fields [of E pull_cmd ?s1] pull
  have s2: "world s2 = ?w2" "calls s2 = calls s @ [pull_cmd]"
    by simp_all
  from world_after_exists [OF assms, of E pull_cmd] s2(1)
  have d2: "db_dir (world s2) \<noteq> Absent" by simp
  from run_checked_pull [of E ?s1] pull
  have fails: "pull_fails E (world s) \<longleftrightarrow> r2 \<noteq> None" by simp
  show ?thesis
  proof (cases r2)
    case (Some e)
    with pull have "update_database E self s = update_failed e s2"
      by (simp add: update_database_def)
    with s2 d2 fails Some show ?thesis by auto
  next
    case None
    with fails have ok: "\<not> pull_fails E (world s)" by simp
    show ?thesis
    proof (cases "rmtree_error E ?w2")
      case kept: (Some p)
      obtain e left where p: "p = (e, left)" by (cases p)
      from kept p s2(1) have rm: "rmtree_error E (world s2) = Some (e, left)" by simp
      obtain s3 where clear: "clear_old_database E s2 = (Some e, s3)"
        using clear_old_database_kept(1) [OF d2 rm]
        by (cases "clear_old_database E s2") simp
      from clear_old_database_kept(2) [OF d2 rm] clear
      have d3: "db_dir (world s3) \<noteq> Absent" by simp
      from pull None clear have "update_database E self s = update_failed e s3"
        by (simp add: update_database_def)
      with d3 ok kept show ?thesis by auto
    next
      case removed: None
      with s2(1) have rm: "rmtree_error E (world s2) = None" by simp
      show ?thesis
      proof (cases "mkdir_error E (?w2\<lparr>db_dir := Absent\<rparr>)")
        case (Some e)
        with s2(1) have mk: "mkdir_error E ((world s2)\<lparr>db_dir := Absent\<rparr>) = Some e"
          by simp
        from Some ok removed have "recreation_fails E (world s)"
          by (simp add: recreation_fails_def)
        moreover from pull None clear_old_database_lost [OF d2 rm mk]
        have "update_database E self s =
            update_failed e (s2\<lparr>world := (world s2)\<lparr>db_dir := Absent\<rparr>\<rparr>)"
          by (simp add: update_database_def)
        ultimately show ?thesis using ok Some by auto
      next
        case created: None
        with s2(1) have mk: "mkdir_error E ((world s2)\<lparr>db_dir := Absent\<rparr>) = None"
          by simp
        let ?s3 = "s2\<lparr>world := (world s2)\<lparr>db_dir := Present []\<rparr>\<rparr>"
        have d3: "db_dir (world ?s3) = Present []" by simp
        obtain r4 s4 where extraction: "setup_database E self ?s3 = (r4, s4)"
          by (cases "setup_database E self ?s3")
        from setup_database_exists [of ?s3 E self] extraction
        have d4: "db_dir (world s4) \<noteq> Absent" by simp
        from pull None clear_old_database_fresh [OF d2 rm mk]
        have upd: "update_database E self s =
            (case setup_database E self ?s3 of
               (Inl e, s4) \<Rightarrow> update_failed e s4
             | (Inr ok, s4) \<Rightarrow> (Inr ok, s4))"
          by (simp add: update_database_def)
        with extraction have res: "update_database E self s =
            (case r4 of Inl e \<Rightarrow> update_failed e s4 | Inr ok \<Rightarrow> (Inr ok, s4))"
          by (simp split: sum.splits)
        have exists: "db_dir (world (snd (update_database E self s))) \<noteq> Absent"
          using res d4 by (cases r4) simp_all
        have returns: "\<exists>ok. fst (update_database E self s) = Inr ok"
          using res by (cases r4) auto
        have started: "\<exists>s3. db_dir (world s3) = Present [] \<and>
             update_database E self s =
               (case setup_database E self s3 of
                  (Inl e, s4) \<Rightarrow> update_failed e s4
                | (Inr ok, s4) \<Rightarrow> (Inr ok, s4))"
          using d3 upd by blast
        from exists returns started ok show ?thesis by simp
      qed
    qed
  qed
qed

theorem update_database_keeps_directory_witness:
  "db_dir (world (state_with (Present [''old.db'']))) \<noteq> Absent \<and>
   \<not> recreation_fails staging_env (world (state_with (Present [''old.db'']))) \<and>
   db_dir (world (snd (update_database staging_env sample_scanner
                         (state_with (Present [''old.db''])))))
     = Present [''trivy.db'', ''metadata.json''] \<and>
   fst (update_database staging_env sample_scanner (state_with (Present [''old.db''])))
     = Inr True \<and>
   (\<exists>s3. db_dir (world s3) = Present [] \<and>
      update_database staging_env sample_scanner (state_with (Present [''old.db''])) =
        (case setup_database staging_env sample_scanner s3 of
           (Inl e, s4) \<Rightarrow> update_failed e s4
         | (Inr ok, s4) \<Rightarrow> (Inr ok, s4))) \<and>
   pull_fails (fixed_env (Inr (Completed 1 [] ''network unreachable'')))
     (world (state_with (Present [''old.db'']))) \<and>
   db_dir (world (snd (update_database (fixed_env (Inr (Completed 1 [] ''network unreachable'')))
                         sample_scanner (state_with (Present [''old.db''])))))
     = Present [''old.db''] \<and>
   fst (update_database (fixed_env (Inr (Completed 1 [] ''network unreachable'')))
          sample_scanner (state_with (Present [''old.db''])))
     = Inr False \<and>
   calls (snd (update_database (fixed_env (Inr (Completed 1 [] ''network unreachable'')))
                 sample_scanner (state_with (Present [''old.db'']))))
     = [[''docker'', ''pull'', ''aquasec/trivy-db:latest'']]"
proof -
  let ?s = "state_with (Present [''old.db''])"
  let ?F = "fixed_env (Inr (Completed 1 [] ''network unreachable''))"
  have d: "db_dir (world ?s) \<noteq> Absent" by (simp add: state_with_def)
  have pf: "pull_fails ?F (world ?s)"
    by (simp add: pull_fails_def fixed_env_def)
  have np: "\<not> pull_fails staging_env (world ?s)"
    by (simp add: pull_fails_def staging_env_def fixed_env_def)
  have nr: "rmtree_error staging_env (world_after staging_env pull_cmd (world ?s)) = None"
    by (simp add: staging_env_def fixed_env_def)
  have nm: "mkdir_error staging_env
      ((world_after staging_env pull_cmd (world ?s))\<lparr>db_dir := Absent\<rparr>) = None"
    by (simp add: staging_env_def fixed_env_def)
  from nm have nf: "\<not> recreation_fails staging_env (world ?s)"
    by (simp add: recreation_fails_def)
  have ok: "fst (update_database staging_env sample_scanner ?s) = Inr True
      \<and> db_dir (world (snd (update_database staging_env sample_scanner ?s)))
           = Present [''trivy.db'', ''metadata.json'']"
    by (simp add: update_database_def setup_database_def clear_old_database_def
        run_checked_def run_cmd_def world_after_def after_command_def rmtree_def mkdir_def
        log_add_def staging_env_def fixed_env_def state_with_def pull_cmd_def
        extract_cmd_def Let_def)
  note upd = update_database_keeps_directory [OF d, of staging_env sample_scanner]
  from upd np nr nm
  have 0: "\<exists>s3. db_dir (world s3) = Present [] \<and>
      update_database staging_env sample_scanner ?s =
        (case setup_database staging_env sample_scanner s3 of
           (Inl e, s4) \<Rightarrow> update_failed e s4
         | (Inr ok, s4) \<Rightarrow> (Inr ok, s4))"
    by blast
  from update_database_keeps_directory [OF d, of ?F sample_scanner] pf
  have 2: "fst (update_database ?F sample_scanner ?s) = Inr False"
    "world (snd (update_database ?F sample_scanner ?s)) = world_after ?F pull_cmd (world ?s)"
    "calls (snd (update_database ?F sample_scanner ?s)) = calls ?s @ [pull_cmd]"
    by blast+
  from 2(2) have 3: "db_dir (world (snd (update_database ?F sample_scanner ?s))) = Present [''old.db'']"
    by (simp add: world_after_def after_command_def fixed_env_def state_with_def)
  from 2(3) have 4: "calls (snd (update_database ?F sample_scanner ?s))
      = [[''docker'', ''pull'', ''aquasec/trivy-db:latest'']]"
    by (simp add: state_with_def pull_cmd_def)
  from d nf ok 0 pf 2(1) 3 4 show ?thesis by simp
qed

text \<open>
  The claim as it was stated fails when the directory cannot be created again: the pull
  succeeds, the old directory is deleted, \<open>mkdir\<close> raises, the handler catches it, and
  \<open>update_database\<close> returns \<open>False\<close> with no directory left.
\<close>

theorem update_database_counterexample:
  "db_dir (world (state_with (Present [''old.db'']))) = Present [''old.db''] \<and>
   db_dir (world (snd (update_database no_mkdir_env sample_scanner
                         (state_with (Present [''old.db'']))))) = Absent \<and>
   fst (update_database no_mkdir_env sample_scanner (state_with (Present [''old.db''])))
     = Inr False"
  by (simp add: update_database_def update_failed_def clear_old_database_def rmtree_def
      mkdir_def run_checked_def run_cmd_def world_after_def after_command_def log_add_def
      no_mkdir_env_def fixed_env_def state_with_def Let_def)

section \<open>Properties of listing the local images\<close>

text \<open>
  C9. \<open>list_local_images\<close> always returns a list and never raises. Without a runtime
  client it logs \<open>Docker client not available\<close> and returns the empty list; when the
  query to the runtime raises, it logs \<open>Failed to list images: ...\<close> and returns the
  empty list.
\<close>

theorem list_local_images_never_raises:
  "(\<exists>image_list. fst (list_local_images E self s) = Inr image_list) \<and>
   (docker_client self = None \<longrightarrow>
      list_local_images E self s =
        (Inr [], log_add (LogError ''Docker client not available'') s)) \<and>
   (\<forall>client e w.
      docker_client self = Some client \<and> images_list E client (world s) = (Inl e, w) \<longrightarrow>
      fst (list_local_images E self s) = Inr [] \<and>
      logger (snd (list_local_images E self s)) =
        logger s @ [LogErrorExn ''Failed to list images: '' e])"
proof (cases "docker_client self")
  case None
  then show ?thesis by (simp add: list_local_images_def)
next
  case (Some client)
  obtain r w where q: "images_list E client (world s) = (r, w)"
    by (cases "images_list E client (world s)")
  show ?thesis
  proof (cases r)
    case (Inl e)
    with Some q show ?thesis by (simp add: list_local_images_def)
  next
    case (Inr images)
    with Some q show ?thesis
      by (cases "image_records images []") (simp_all add: list_local_images_def)
  qed
qed

theorem list_local_images_never_raises_witness:
  "docker_client offline_scanner = None \<and>
   list_local_images (fixed_env (Inr (Completed 0 [] []))) offline_scanner (state_with Absent) =
     (Inr [], log_add (LogError ''Docker client not available'') (state_with Absent)) \<and>
   docker_client sample_scanner = Some () \<and>
   images_list (fixed_env (Inr (Completed 0 [] []))) () (world (state_with Absent)) =
     (Inl (Raised ''connection refused''), world (state_with Absent)) \<and>
   fst (list_local_images (fixed_env (Inr (Completed 0 [] []))) sample_scanner (state_with Absent))
     = Inr [] \<and>
   logger (snd (list_local_images (fixed_env (Inr (Completed 0 [] []))) sample_scanner
                  (state_with Absent)))
     = [LogErrorExn ''Failed to list images: '' (Raised ''connection refused'')]"
proof -
  let ?E = "fixed_env (Inr (Completed 0 [] []))"
  let ?s = "state_with Absent"
  have a: "docker_client offline_scanner = None"
    by (simp add: offline_scanner_def sample_scanner_def)
  have b: "docker_client sample_scanner = Some ()"
    by (simp add: sample_scanner_def)
  have c: "images_list ?E () (world ?s) = (Inl (Raised ''connection refused''), world ?s)"
    by (simp add: fixed_env_def)
  from list_local_images_never_raises [of ?E offline_scanner ?s] a
  have 1: "list_local_images ?E offline_scanner ?s =
     (Inr [], log_add (LogError ''Docker client not available'') ?s)"
    by blast
  from list_local_images_never_raises [of ?E sample_scanner ?s] b c
  have 2: "fst (list_local_images ?E sample_scanner ?s) = Inr [] \<and>
      logger (snd (list_local_images ?E sample_scanner ?s)) =
        logger ?s @ [LogErrorExn ''Failed to list images: '' (Raised ''connection refused'')]"
    by blast
  then have 3: "logger (snd (list_local_images ?E sample_scanner ?s)) =
        [LogErrorExn ''Failed to list images: '' (Raised ''connection refused'')]"
    by (simp add: state_with_def)
  from a b c 1 2 3 show ?thesis by simp
qed

end
